theory Spec2Isabelle
  imports Main "HOL-Library.Product_Lexorder"
begin

section \<open>Python values and exceptions\<close>

text \<open>
  The repository is Python: \<^verbatim>\<open>src/date_parser.py\<close> (\<^verbatim>\<open>get_dates\<close>, \<^verbatim>\<open>get_date\<close>) and
  \<^verbatim>\<open>src/feed_ursus.py\<close> (\<^verbatim>\<open>map_field_value\<close>, \<^verbatim>\<open>map_record\<close>, \<^verbatim>\<open>thumbnail_from_child\<close>,
  \<^verbatim>\<open>thumbnail_from_manifest\<close>). Its values are dynamically typed (\<^verbatim>\<open>typing.Any\<close>), so the
  model has one type of Python values. A dict of the model has string keys and keeps its
  insertion order (a JSON object, an output record). A \<^verbatim>\<open>datetime\<close> is the naive one that
  \<^verbatim>\<open>dateutil\<close> builds from a naive default: year, month, day, hour, minute, second and
  microsecond, compared and ordered componentwise from the left, which is the lexicographic
  order of the tuple. Timezone-aware datetimes and floats are outside the model.
\<close>

type_synonym datetime = "int \<times> int \<times> int \<times> int \<times> int \<times> int \<times> int"

datatype pyval =
    PNone
  | PBool bool
  | PInt int
  | PStr string
  | PList "pyval list"
  | PDict "(string \<times> pyval) list"
  | PDatetime datetime

text \<open>The exception classes that the modelled statements can raise.\<close>

datatype pyexc =
  TypeError | KeyError | AttributeError | IndexError | ValueError | OverflowError | OSError

text \<open>Truth value testing (\<^verbatim>\<open>if x:\<close>, \<^verbatim>\<open>x or y\<close>): a datetime is always true.\<close>

fun truthy :: "pyval \<Rightarrow> bool" where
  "truthy PNone = False"
| "truthy (PBool b) = b"
| "truthy (PInt n) = (n \<noteq> 0)"
| "truthy (PStr s) = (s \<noteq> [])"
| "truthy (PList xs) = (xs \<noteq> [])"
| "truthy (PDict kvs) = (kvs \<noteq> [])"
| "truthy (PDatetime d) = True"

section \<open>date\_parser.py\<close>

subsection \<open>The pattern RANGE\<close>

text \<open>
  \<^verbatim>\<open>RANGE = re.compile(r"(.*)/(.*)")\<close>, used as \<^verbatim>\<open>RANGE.search(date)\<close>. The model follows
  the matcher: \<^verbatim>\<open>search\<close> tries the start positions from the left; at one position the first
  group takes the longest run of characters other than a newline (\<^verbatim>\<open>.\<close> does not match a
  newline) and gives characters back one at a time until a slash follows; the second group
  then takes the longest run of characters other than a newline.
\<close>

definition newline :: char where
  "newline = CHR 0x0A"

definition dot_run :: "string \<Rightarrow> string" where
  "dot_run s = takeWhile (\<lambda>c. c \<noteq> newline) s"

fun range_backtrack :: "nat \<Rightarrow> string \<Rightarrow> (string \<times> string) option" where
  "range_backtrack k s =
     (if k < length s \<and> s ! k = CHR ''/'' then Some (take k s, dot_run (drop (Suc k) s))
      else (case k of 0 \<Rightarrow> None | Suc j \<Rightarrow> range_backtrack j s))"

definition range_match_at :: "string \<Rightarrow> (string \<times> string) option" where
  "range_match_at s = range_backtrack (length (dot_run s)) s"

fun RANGE_search :: "string \<Rightarrow> (string \<times> string) option" where
  "RANGE_search [] = range_match_at []"
| "RANGE_search (c # cs) =
     (case range_match_at (c # cs) of
        Some groups \<Rightarrow> Some groups
      | None \<Rightarrow> RANGE_search cs)"

subsection \<open>get\_date\<close>

text \<open>
  \<^verbatim>\<open>dateutil.parser.parse\<close> is a third-party library: it is a parameter of the model, a
  function of the string and the default date that returns a datetime or raises. Its
  documentation names \<^verbatim>\<open>ParserError\<close> (a subclass of \<^verbatim>\<open>ValueError\<close>) and \<^verbatim>\<open>OverflowError\<close>
  for string input.
\<close>

type_synonym date_parse = "string \<Rightarrow> datetime \<Rightarrow> pyexc + datetime"

definition default_date :: datetime where
  "default_date = (1978, 1, 1, 0, 0, 0, 0)"

text \<open>
  \<^verbatim>\<open>get_date\<close> returns the parsed datetime itself (\<^verbatim>\<open>return parsed_date\<close>), or None when
  the parser raises a ValueError; any other exception propagates.
\<close>

definition get_date :: "date_parse \<Rightarrow> string \<Rightarrow> pyexc + datetime option" where
  "get_date parse date =
     (case parse date default_date of
        Inr parsed_date \<Rightarrow> Inr (Some parsed_date)
      | Inl ValueError \<Rightarrow> Inr None
      | Inl err \<Rightarrow> Inl err)"

subsection \<open>get\_dates\<close>

text \<open>
  One round of the loop \<^verbatim>\<open>for date in dates\<close>, on the set \<^verbatim>\<open>solr_dts\<close>. The test
  \<^verbatim>\<open>if start and end\<close> is a truth test of two values that are a datetime (true) or None.
\<close>

definition add_date :: "date_parse \<Rightarrow> datetime set \<Rightarrow> pyval \<Rightarrow> pyexc + datetime set" where
  "add_date parse solr_dts date =
     (case date of
        PStr s \<Rightarrow>
          (case RANGE_search s of
             Some (start_str, end_str) \<Rightarrow>
               (case get_date parse start_str of
                  Inl err \<Rightarrow> Inl err
                | Inr start \<Rightarrow>
                    (case get_date parse end_str of
                       Inl err \<Rightarrow> Inl err
                     | Inr end \<Rightarrow>
                         (case (start, end) of
                            (Some a, Some b) \<Rightarrow> Inr (solr_dts \<union> {a, b})
                          | _ \<Rightarrow> Inr solr_dts)))
           | None \<Rightarrow>
               (case get_date parse s of
                  Inl err \<Rightarrow> Inl err
                | Inr None \<Rightarrow> Inr solr_dts
                | Inr (Some solr_date) \<Rightarrow> Inr (insert solr_date solr_dts)))
      | _ \<Rightarrow> Inr solr_dts)"

fun dates_loop :: "date_parse \<Rightarrow> datetime set \<Rightarrow> pyval list \<Rightarrow> pyexc + datetime set" where
  "dates_loop parse solr_dts [] = Inr solr_dts"
| "dates_loop parse solr_dts (date # rest) =
     (case add_date parse solr_dts date of
        Inl err \<Rightarrow> Inl err
      | Inr solr_dts' \<Rightarrow> dates_loop parse solr_dts' rest)"

text \<open>
  \<^verbatim>\<open>isinstance(dates, typing.Iterable)\<close>: of the values of the model a list, a string
  and a dict are iterable, a string yielding its characters as one-character strings and a
  dict its keys.
\<close>

fun py_iter :: "pyval \<Rightarrow> pyval list option" where
  "py_iter (PList xs) = Some xs"
| "py_iter (PStr s) = Some (map (\<lambda>c. PStr [c]) s)"
| "py_iter (PDict kvs) = Some (map (\<lambda>(k, v). PStr k) kvs)"
| "py_iter _ = None"

definition get_dates :: "date_parse \<Rightarrow> pyval \<Rightarrow> pyexc + pyval" where
  "get_dates parse dates =
     (case py_iter dates of
        None \<Rightarrow> Inr (PList [])
      | Some xs \<Rightarrow>
          (case dates_loop parse {} xs of
             Inl err \<Rightarrow> Inl err
           | Inr solr_dts \<Rightarrow> Inr (PList (map PDatetime (sorted_list_of_set solr_dts)))))"

text \<open>
  A parser for closed evaluations. It does what \<^verbatim>\<open>dateutil\<close> does on a string of exactly
  four decimal digits (the year is read from the string, every other component is taken from
  the default) and raises a ValueError on any other string, as \<^verbatim>\<open>dateutil\<close> does on
  \<^verbatim>\<open>"not-a-date"\<close>. It is used on such strings only; every general theorem is about an
  arbitrary parser.
\<close>

definition is_digit :: "char \<Rightarrow> bool" where
  "is_digit c = (c \<in> set ''0123456789'')"

definition digits_value :: "string \<Rightarrow> int" where
  "digits_value s = foldl (\<lambda>a c. 10 * a + (of_char c - 48)) 0 s"

definition four_digit_parse :: date_parse where
  "four_digit_parse s d =
     (if length s = 4 \<and> list_all is_digit s
      then (case d of (y, rest) \<Rightarrow> Inr (digits_value s, rest))
      else Inl ValueError)"

section \<open>feed\_ursus.py\<close>

subsection \<open>Rows, records, configuration and what lies outside the source\<close>

text \<open>
  \<^verbatim>\<open>DLCSRecord\<close> (a CSV row) is read only: \<^verbatim>\<open>row.get(c)\<close>, \<^verbatim>\<open>"Parent ARK" in row\<close>,
  \<^verbatim>\<open>row["Parent ARK"]\<close>. \<^verbatim>\<open>UrsusRecord\<close> is built key by key, so it is a dict in insertion
  order.
\<close>

type_synonym row = "string \<rightharpoonup> pyval"

type_synonym ursus_record = "(string \<times> pyval) list"

text \<open>\<^verbatim>\<open>d.get(k)\<close> and \<^verbatim>\<open>d[k] = v\<close> on a dict in insertion order.\<close>

definition dict_get :: "(string \<times> pyval) list \<Rightarrow> string \<Rightarrow> pyval" where
  "dict_get d k = (case map_of d k of None \<Rightarrow> PNone | Some v \<Rightarrow> v)"

fun dict_set :: "(string \<times> pyval) list \<Rightarrow> string \<Rightarrow> pyval \<Rightarrow> (string \<times> pyval) list" where
  "dict_set [] k v = [(k, v)]"
| "dict_set ((k', v') # d) k v = (if k' = k then (k, v) # d else (k', v') # dict_set d k v)"

text \<open>
  Modelled from the spec: the type \<^verbatim>\<open>mapper.MappigDictValue\<close> of the values of
  \<^verbatim>\<open>mapper.FIELD_MAPPING\<close> (\<^verbatim>\<open>mapper.py\<close> is not among the sources). A rule is null, a
  computed rule (a function of the row, which may raise), a single column name, or a
  collection of column names; \<open>ROther\<close> stands for every other value, the ones that fail all
  four tests of \<^verbatim>\<open>map_field_value\<close> (\<^verbatim>\<open>is None\<close>, \<^verbatim>\<open>callable\<close>, \<^verbatim>\<open>isinstance(_, str)\<close>,
  \<^verbatim>\<open>isinstance(_, typing.Collection)\<close>), such as a number or a generator.
\<close>

datatype mapping_rule =
    RNone
  | RCallable "row \<Rightarrow> pyexc + pyval"
  | RStr string
  | RCollection "string list"
  | ROther

text \<open>
  The \<^verbatim>\<open>TypeError\<close> that \<^verbatim>\<open>map_field_value\<close> raises itself for a malformed rule is kept
  apart from the exceptions that come out of other statements and out of external code.
\<close>

datatype error = MappingTypeError | Exc pyexc

text \<open>
  What the source takes from outside: the table \<^verbatim>\<open>mapper.FIELD_MAPPING\<close> (a dict, in its
  order), the function \<^verbatim>\<open>mapper.thumbnail_url\<close>, the pandas selection
  \<^verbatim>\<open>data[data[column] == value]\<close> on a data frame, and the HTTP request with its JSON
  decoding, \<^verbatim>\<open>requests.get(url).json()\<close>. Each is a parameter; the last three may raise.
  A data frame is the list of its rows in table order (\<^verbatim>\<open>shape[0]\<close> is its length,
  \<^verbatim>\<open>iterrows()\<close> yields the rows).
\<close>

type_synonym data_frame = "row list"

record externals =
  FIELD_MAPPING :: "(string \<times> mapping_rule) list"
  thumbnail_url :: "row \<Rightarrow> pyexc + pyval"
  select_eq :: "data_frame \<Rightarrow> string \<Rightarrow> pyval \<Rightarrow> pyexc + data_frame"
  get_json :: "string \<Rightarrow> pyexc + pyval"

text \<open>
  \<^verbatim>\<open>config\<close> is a dict whose three keys may each be missing. The collection names are
  a dict from cell values to titles, given by its lookup. A vocabulary table is the
  \<^verbatim>\<open>"terms"\<close> dict that \<^verbatim>\<open>load_field_config\<close> builds, read at string keys only.
\<close>

record config =
  collection_names :: "(pyval \<rightharpoonup> pyval) option"
  controlled_fields :: "(string \<rightharpoonup> (string \<rightharpoonup> pyval)) option"
  data_frame :: "data_frame option"

subsection \<open>str.split and re.sub\<close>

text \<open>
  \<^verbatim>\<open>s.split(sep)\<close> for a non-empty separator: the occurrences of \<open>sep\<close> are found from the
  left and do not overlap; a string without one gives the one-element list of itself.
\<close>

fun split_py :: "string \<Rightarrow> string \<Rightarrow> string list" where
  "split_py sep [] = [[]]"
| "split_py sep (c # cs) =
     (if sep \<noteq> [] \<and> take (length sep) (c # cs) = sep
      then [] # split_py sep (drop (length sep) (c # cs))
      else (case split_py sep cs of
              [] \<Rightarrow> [[c]]
            | fragment # fragments \<Rightarrow> (c # fragment) # fragments))"

text \<open>
  \<^verbatim>\<open>re.sub(r"_\w+$", "", field_name)\<close>. The matcher tries the positions from the left. At
  an underscore, \<^verbatim>\<open>\w+\<close> takes the longest run of word characters (letters, digits and the
  underscore itself; the model has the ASCII ones) and gives them back one at a time, as long
  as one is left, until \<^verbatim>\<open>$\<close> matches: at the end of the string or before a newline that
  ends the string. A match is deleted and the search goes on behind it.
\<close>

definition is_word_char :: "char \<Rightarrow> bool" where
  "is_word_char c =
     (c \<in> set ''abcdefghijklmnopqrstuvwxyzABCDEFGHIJKLMNOPQRSTUVWXYZ0123456789_'')"

definition at_end :: "string \<Rightarrow> bool" where
  "at_end s = (s = [] \<or> s = [newline])"

fun suffix_backtrack :: "nat \<Rightarrow> string \<Rightarrow> nat option" where
  "suffix_backtrack 0 s = None"
| "suffix_backtrack (Suc k) s =
     (if at_end (drop (Suc k) s) then Some (Suc k) else suffix_backtrack k s)"

text \<open>The length of the match that starts at the head of the string, if there is one.\<close>

fun suffix_match_at :: "string \<Rightarrow> nat option" where
  "suffix_match_at [] = None"
| "suffix_match_at (c # cs) =
     (if c = CHR ''_''
      then map_option Suc (suffix_backtrack (length (takeWhile is_word_char cs)) cs)
      else None)"

text \<open>The first argument counts the characters of a match that are still to be deleted.\<close>

fun sub_suffix :: "nat \<Rightarrow> string \<Rightarrow> string" where
  "sub_suffix k [] = []"
| "sub_suffix (Suc k) (c # cs) = sub_suffix k cs"
| "sub_suffix 0 (c # cs) =
     (case suffix_match_at (c # cs) of
        Some n \<Rightarrow> sub_suffix (n - 1) cs
      | None \<Rightarrow> c # sub_suffix 0 cs)"

definition field_name_without_suffix :: "string \<Rightarrow> string" where
  "field_name_without_suffix field_name = sub_suffix 0 field_name"

subsection \<open>map\_field\_value\<close>

text \<open>
  The loop \<^verbatim>\<open>for csv_field in mapping\<close>: a cell that is true is split; a true cell that is
  not a string has no \<^verbatim>\<open>split\<close> and raises an AttributeError.
\<close>

fun extend_output :: "row \<Rightarrow> string list \<Rightarrow> string list \<Rightarrow> error + string list" where
  "extend_output row output [] = Inr output"
| "extend_output row output (csv_field # mapping) =
     (let input_value = (case row csv_field of None \<Rightarrow> PNone | Some v \<Rightarrow> v)
      in if truthy input_value
         then (case input_value of
                 PStr s \<Rightarrow> extend_output row (output @ split_py ''|~|'' s) mapping
               | _ \<Rightarrow> Inl (Exc AttributeError))
         else extend_output row output mapping)"

text \<open>
  The controlled-vocabulary pass: \<^verbatim>\<open>terms.get(value, value)\<close> on every fragment when
  \<^verbatim>\<open>config.get("controlled_fields", {})\<close> has the key \<^verbatim>\<open>field_name_without_suffix\<close>.
\<close>

definition substitute_terms :: "config \<Rightarrow> string \<Rightarrow> string list \<Rightarrow> pyval list" where
  "substitute_terms config field_name output =
     (case (case controlled_fields config of None \<Rightarrow> Map.empty | Some cf \<Rightarrow> cf)
             (field_name_without_suffix field_name) of
        Some terms \<Rightarrow>
          map (\<lambda>value. case terms value of Some term \<Rightarrow> term | None \<Rightarrow> PStr value) output
      | None \<Rightarrow> map PStr output)"

definition map_columns :: "row \<Rightarrow> string \<Rightarrow> config \<Rightarrow> string list \<Rightarrow> error + pyval" where
  "map_columns row field_name config mapping =
     (case extend_output row [] mapping of
        Inl err \<Rightarrow> Inl err
      | Inr output \<Rightarrow>
          Inr (PList (filter truthy (substitute_terms config field_name output))))"

definition map_field_value :: "externals \<Rightarrow> row \<Rightarrow> string \<Rightarrow> config \<Rightarrow> error + pyval" where
  "map_field_value ext row field_name config =
     (case map_of (FIELD_MAPPING ext) field_name of
        None \<Rightarrow> Inl (Exc KeyError)
      | Some RNone \<Rightarrow> Inr PNone
      | Some (RCallable mapping) \<Rightarrow>
          (case mapping row of Inl err \<Rightarrow> Inl (Exc err) | Inr v \<Rightarrow> Inr v)
      | Some (RStr mapping) \<Rightarrow> map_columns row field_name config [mapping]
      | Some (RCollection mapping) \<Rightarrow> map_columns row field_name config mapping
      | Some ROther \<Rightarrow> Inl MappingTypeError)"

subsection \<open>thumbnail\_from\_child\<close>

fun first_thumb :: "externals \<Rightarrow> data_frame \<Rightarrow> error + pyval" where
  "first_thumb ext [] = Inr PNone"
| "first_thumb ext (row # rest) =
     (case thumbnail_url ext row of
        Inl err \<Rightarrow> Inl (Exc err)
      | Inr thumb \<Rightarrow> if truthy thumb then Inr thumb else first_thumb ext rest)"

definition thumbnail_from_child :: "externals \<Rightarrow> ursus_record \<Rightarrow> config \<Rightarrow> error + pyval" where
  "thumbnail_from_child ext record config =
     (case data_frame config of
        None \<Rightarrow> Inr PNone
      | Some data \<Rightarrow>
          (case map_of record ''ark_ssi'' of
             None \<Rightarrow> Inl (Exc KeyError)
           | Some ark \<Rightarrow>
               (case select_eq ext data ''Parent ARK'' ark of
                  Inl err \<Rightarrow> Inl (Exc err)
                | Inr children \<Rightarrow>
                    (case select_eq ext children ''Title'' (PStr ''f. 001r'') of
                       Inl err \<Rightarrow> Inl (Exc err)
                     | Inr representative \<Rightarrow>
                         first_thumb ext
                           (if length representative = 0 then children
                            else representative)))))"


subsection \<open>thumbnail\_from\_manifest\<close>

text \<open>
  Subscription \<^verbatim>\<open>x["key"]\<close> and \<^verbatim>\<open>x[0]\<close> on the values that JSON decoding gives. Only a
  dict takes a string key; a list and a string take the index 0 when they are not empty; a
  dict with string keys has no key 0.
\<close>

fun getitem_key :: "pyval \<Rightarrow> string \<Rightarrow> pyexc + pyval" where
  "getitem_key (PDict kvs) k = (case map_of kvs k of None \<Rightarrow> Inl KeyError | Some v \<Rightarrow> Inr v)"
| "getitem_key _ k = Inl TypeError"

fun getitem_0 :: "pyval \<Rightarrow> pyexc + pyval" where
  "getitem_0 (PList []) = Inl IndexError"
| "getitem_0 (PList (x # xs)) = Inr x"
| "getitem_0 (PStr []) = Inl IndexError"
| "getitem_0 (PStr (c # cs)) = Inr (PStr [c])"
| "getitem_0 (PDict kvs) = Inl KeyError"
| "getitem_0 _ = Inl TypeError"

text \<open>
  The dict \<^verbatim>\<open>canvases\<close> has the labels as keys, which are any JSON value. A list or a dict
  is not hashable; \<^verbatim>\<open>True\<close> and \<^verbatim>\<open>1\<close>, and \<^verbatim>\<open>False\<close> and \<^verbatim>\<open>0\<close>, are the same key. Storing
  under a key that is present replaces the value and keeps the position.
\<close>

fun hashable :: "pyval \<Rightarrow> bool" where
  "hashable (PList xs) = False"
| "hashable (PDict kvs) = False"
| "hashable _ = True"

fun key_norm :: "pyval \<Rightarrow> pyval" where
  "key_norm (PBool b) = PInt (if b then 1 else 0)"
| "key_norm v = v"

fun canvases_set :: "(pyval \<times> pyval) list \<Rightarrow> pyval \<Rightarrow> pyval \<Rightarrow> (pyval \<times> pyval) list" where
  "canvases_set [] k v = [(k, v)]"
| "canvases_set ((k', v') # d) k v =
     (if key_norm k' = key_norm k then (k', v) # d else (k', v') # canvases_set d k v)"

definition canvases_get :: "(pyval \<times> pyval) list \<Rightarrow> pyval \<Rightarrow> pyval" where
  "canvases_get d k =
     (case find (\<lambda>(k', v'). key_norm k' = key_norm k) d of
        None \<Rightarrow> PNone
      | Some (k', v') \<Rightarrow> v')"

text \<open>One canvas \<^verbatim>\<open>c\<close>: the pair \<^verbatim>\<open>c["label"]: c["images"][0]["resource"]["service"]["@id"]\<close>.\<close>

definition canvas_entry :: "pyval \<Rightarrow> pyexc + (pyval \<times> pyval)" where
  "canvas_entry c =
     (case getitem_key c ''label'' of
        Inl err \<Rightarrow> Inl err
      | Inr label \<Rightarrow>
     (case getitem_key c ''images'' of
        Inl err \<Rightarrow> Inl err
      | Inr images \<Rightarrow>
     (case getitem_0 images of
        Inl err \<Rightarrow> Inl err
      | Inr img \<Rightarrow>
     (case getitem_key img ''resource'' of
        Inl err \<Rightarrow> Inl err
      | Inr resource \<Rightarrow>
     (case getitem_key resource ''service'' of
        Inl err \<Rightarrow> Inl err
      | Inr service \<Rightarrow>
     (case getitem_key service ''@id'' of
        Inl err \<Rightarrow> Inl err
      | Inr ident \<Rightarrow>
          if hashable label then Inr (label, ident) else Inl TypeError))))))"

fun add_canvases :: "(pyval \<times> pyval) list \<Rightarrow> pyval list \<Rightarrow> pyexc + (pyval \<times> pyval) list" where
  "add_canvases canvases [] = Inr canvases"
| "add_canvases canvases (c # rest) =
     (case canvas_entry c of
        Inl err \<Rightarrow> Inl err
      | Inr (label, ident) \<Rightarrow> add_canvases (canvases_set canvases label ident) rest)"

fun add_sequences :: "(pyval \<times> pyval) list \<Rightarrow> pyval list \<Rightarrow> pyexc + (pyval \<times> pyval) list" where
  "add_sequences canvases [] = Inr canvases"
| "add_sequences canvases (seq # rest) =
     (case getitem_key seq ''canvases'' of
        Inl err \<Rightarrow> Inl err
      | Inr cs \<Rightarrow>
          (case py_iter cs of
             None \<Rightarrow> Inl TypeError
           | Some cs' \<Rightarrow>
               (case add_canvases canvases cs' of
                  Inl err \<Rightarrow> Inl err
                | Inr canvases' \<Rightarrow> add_sequences canvases' rest)))"

text \<open>
  The body of the \<^verbatim>\<open>try\<close> statement, with the exceptions it can raise. The last line is
  \<^verbatim>\<open>(canvases.get("f. 001r") or list(canvases.values())[0]) + "/full/!200,200/0/default.jpg"\<close>;
  \<^verbatim>\<open>+\<close> with a string on the right is defined for a string on the left only.
\<close>

definition manifest_body :: "externals \<Rightarrow> ursus_record \<Rightarrow> pyexc + pyval" where
  "manifest_body ext record =
     (case dict_get record ''iiif_manifest_url_ssi'' of
        PStr manifest_url \<Rightarrow>
          (case get_json ext manifest_url of
             Inl err \<Rightarrow> Inl err
           | Inr manifest \<Rightarrow>
          (case getitem_key manifest ''sequences'' of
             Inl err \<Rightarrow> Inl err
           | Inr sequences \<Rightarrow>
          (case py_iter sequences of
             None \<Rightarrow> Inl TypeError
           | Some seqs \<Rightarrow>
          (case add_sequences [] seqs of
             Inl err \<Rightarrow> Inl err
           | Inr canvases \<Rightarrow>
          (case (let found = canvases_get canvases (PStr ''f. 001r'')
                 in if truthy found then Inr found
                    else (case canvases of
                            [] \<Rightarrow> Inl IndexError
                          | (label, ident) # _ \<Rightarrow> Inr ident)) of
             Inl err \<Rightarrow> Inl err
           | Inr (PStr base) \<Rightarrow> Inr (PStr (base @ ''/full/!200,200/0/default.jpg''))
           | Inr _ \<Rightarrow> Inl TypeError)))))
      | _ \<Rightarrow> Inr PNone)"

text \<open>The bare \<^verbatim>\<open>except:\<close> turns every exception of the body into None.\<close>

definition thumbnail_from_manifest :: "externals \<Rightarrow> ursus_record \<Rightarrow> error + pyval" where
  "thumbnail_from_manifest ext record =
     (case manifest_body ext record of
        Inl err \<Rightarrow> Inr PNone
      | Inr v \<Rightarrow> Inr v)"

subsection \<open>map\_record\<close>

text \<open>The dict comprehension over \<^verbatim>\<open>mapper.FIELD_MAPPING\<close>, field by field.\<close>

fun base_pass ::
  "externals \<Rightarrow> row \<Rightarrow> config \<Rightarrow> ursus_record \<Rightarrow> string list \<Rightarrow> error + ursus_record" where
  "base_pass ext row config record [] = Inr record"
| "base_pass ext row config record (field_name # rest) =
     (case map_field_value ext row field_name config of
        Inl err \<Rightarrow> Inl err
      | Inr v \<Rightarrow> base_pass ext row config (dict_set record field_name v) rest)"

text \<open>
  \<^verbatim>\<open>record.get("thumbnail_url_ss") or thumbnail_from_child(record, config=config) or
  thumbnail_from_manifest(record)\<close>: \<^verbatim>\<open>or\<close> gives its left operand when that is true and
  evaluates its right operand otherwise.
\<close>

definition resolve_thumbnail :: "externals \<Rightarrow> ursus_record \<Rightarrow> config \<Rightarrow> error + pyval" where
  "resolve_thumbnail ext record config =
     (let thumb = dict_get record ''thumbnail_url_ss''
      in if truthy thumb then Inr thumb
         else (case thumbnail_from_child ext record config of
                 Inl err \<Rightarrow> Inl err
               | Inr child \<Rightarrow>
                   if truthy child then Inr child else thumbnail_from_manifest ext record))"

text \<open>
  \<^verbatim>\<open>if "Parent ARK" in row and row["Parent ARK"] in config["collection_names"]\<close>: the
  subscription of \<^verbatim>\<open>config\<close> raises a KeyError when the key is missing, the membership test
  a TypeError when the cell is not hashable.
\<close>

definition backfill_collection_name ::
  "row \<Rightarrow> config \<Rightarrow> ursus_record \<Rightarrow> error + ursus_record" where
  "backfill_collection_name row config record =
     (case row ''Parent ARK'' of
        None \<Rightarrow> Inr record
      | Some parent \<Rightarrow>
          (case collection_names config of
             None \<Rightarrow> Inl (Exc KeyError)
           | Some names \<Rightarrow>
               if \<not> hashable parent then Inl (Exc TypeError)
               else (case names parent of
                       None \<Rightarrow> Inr record
                     | Some dlcs_collection_name \<Rightarrow>
                         Inr (dict_set record ''dlcs_collection_name_tesim''
                                (PList [dlcs_collection_name])))))"

text \<open>
  The eight assignments \<^verbatim>\<open>record[facet] = record.get(display)\<close>, in the order of the
  source.
\<close>

definition facet_fields :: "(string \<times> string) list" where
  "facet_fields =
     [(''genre_sim'', ''genre_tesim''),
      (''human_readable_language_sim'', ''language_tesim''),
      (''human_readable_resource_type_sim'', ''resource_type_tesim''),
      (''location_sim'', ''location_tesim''),
      (''member_of_collections_ssim'', ''dlcs_collection_name_tesim''),
      (''named_subject_sim'', ''named_subject_tesim''),
      (''subject_sim'', ''subject_tesim''),
      (''year_isim'', ''year_tesim'')]"

fun mirror_facets :: "ursus_record \<Rightarrow> (string \<times> string) list \<Rightarrow> ursus_record" where
  "mirror_facets record [] = record"
| "mirror_facets record ((facet, display) # rest) =
     mirror_facets (dict_set record facet (dict_get record display)) rest"

definition map_record :: "externals \<Rightarrow> row \<Rightarrow> config \<Rightarrow> error + ursus_record" where
  "map_record ext row config =
     (case base_pass ext row config [] (map fst (FIELD_MAPPING ext)) of
        Inl err \<Rightarrow> Inl err
      | Inr record \<Rightarrow>
          (case resolve_thumbnail ext record config of
             Inl err \<Rightarrow> Inl err
           | Inr thumb \<Rightarrow>
               (case backfill_collection_name row config
                       (dict_set record ''thumbnail_url_ss'' thumb) of
                  Inl err \<Rightarrow> Inl err
                | Inr record' \<Rightarrow> Inr (mirror_facets record' facet_fields))))"


subsection \<open>Notions used in the statements\<close>

text \<open>
  A cell as the table loader supplies it: missing, null or a string. The fragments of a
  cell, in the words of the specification: a non-empty cell is split on the delimiter, any
  other cell gives nothing. The value of a field in what \<^verbatim>\<open>map_record\<close> returns.
\<close>

definition string_cell :: "row \<Rightarrow> string \<Rightarrow> bool" where
  "string_cell row column =
     (case row column of None \<Rightarrow> True | Some PNone \<Rightarrow> True | Some (PStr s) \<Rightarrow> True | _ \<Rightarrow> False)"

definition spec_fragments :: "row \<Rightarrow> string \<Rightarrow> string list" where
  "spec_fragments row column =
     (case row column of
        Some (PStr s) \<Rightarrow> if s = [] then [] else split_py ''|~|'' s
      | _ \<Rightarrow> [])"

text \<open>
  A rule that \<^verbatim>\<open>map_field_value\<close> can carry out on a row: it is not malformed, a computed
  rule returns on the row, and the columns of a column rule hold cells of the table loader.
\<close>

definition valid_rule :: "row \<Rightarrow> mapping_rule \<Rightarrow> bool" where
  "valid_rule row rule =
     (case rule of
        RNone \<Rightarrow> True
      | RCallable mapping \<Rightarrow> (case mapping row of Inl err \<Rightarrow> False | Inr v \<Rightarrow> True)
      | RStr column \<Rightarrow> string_cell row column
      | RCollection columns \<Rightarrow> list_all (string_cell row) columns
      | ROther \<Rightarrow> False)"

definition field_of :: "error + ursus_record \<Rightarrow> string \<Rightarrow> error + pyval" where
  "field_of result field_name =
     (case result of Inl err \<Rightarrow> Inl err | Inr record \<Rightarrow> Inr (dict_get record field_name))"

subsection \<open>A schema, a row and a configuration for closed evaluations\<close>

text \<open>
  Concrete values for the parameters, used where a statement is evaluated on an input.
  The schema has the kinds of rule that \<^verbatim>\<open>map_field_value\<close> tells apart; the computed
  rules return a cell as it is. The stand-in for \<^verbatim>\<open>mapper.thumbnail_url\<close> returns the cell
  of a thumbnail column, the stand-in for the pandas selection keeps the rows whose cell
  equals the value, and the stand-in for the HTTP request knows one URL. Every general
  theorem is about arbitrary parameters.
\<close>

definition cell :: "row \<Rightarrow> string \<Rightarrow> pyval" where
  "cell row column = (case row column of None \<Rightarrow> PNone | Some v \<Rightarrow> v)"

definition sample_manifest :: pyval where
  "sample_manifest =
     PDict [(''sequences'',
       PList [PDict [(''canvases'',
         PList [PDict [(''label'', PStr ''f. 001r''),
                       (''images'',
                        PList [PDict [(''resource'',
                          PDict [(''service'',
                            PDict [(''@id'', PStr ''https://iiif.example/img1'')])])]])]])]])]"

definition sample_mapping :: "(string \<times> mapping_rule) list" where
  "sample_mapping =
     [(''ark_ssi'', RCallable (\<lambda>row. Inr (cell row ''Item ARK''))),
      (''thumbnail_url_ss'', RStr ''Thumbnail URL''),
      (''iiif_manifest_url_ssi'', RCallable (\<lambda>row. Inr (cell row ''IIIF Manifest URL''))),
      (''genre_tesim'', RCollection [''Type.genre'', ''Genre.extra'']),
      (''resource_type_tesim'', RStr ''Type.typeOfResource''),
      (''subject_tesim'', RStr ''Subject''),
      (''year_tesim'', RStr ''Date.normalized''),
      (''title_tesim'', RNone)]"

definition sample_externals :: externals where
  "sample_externals =
     \<lparr>FIELD_MAPPING = sample_mapping,
      thumbnail_url = (\<lambda>row. Inr (cell row ''Thumbnail URL'')),
      select_eq = (\<lambda>data column v. Inr (filter (\<lambda>row. row column = Some v) data)),
      get_json = (\<lambda>url. if url = ''https://iiif.example/manifest''
                          then Inr sample_manifest else Inl OSError)\<rparr>"

definition sample_config :: config where
  "sample_config =
     \<lparr>collection_names = Some (map_of [(PStr ''ark:/21198/c1'', PStr ''Sinai Palimpsests'')]),
      controlled_fields =
        Some (map_of [(''genre'', map_of [(''1'', PStr ''Photograph'')]),
                      (''resource_type'', map_of [(''1'', PStr ''Photograph'')])]),
      data_frame = None\<rparr>"

definition sample_row :: row where
  "sample_row =
     map_of [(''Item ARK'', PStr ''ark:/21198/z1''),
             (''Parent ARK'', PStr ''ark:/21198/c1''),
             (''IIIF Manifest URL'', PStr ''https://iiif.example/manifest''),
             (''Type.genre'', PStr ''1|~|2''),
             (''Subject'', PStr ''a|~|b|~|''),
             (''Type.typeOfResource'', PStr ''1''),
             (''Date.normalized'', PStr ''1923/1925'')]"


section \<open>Properties of date\_parser.py\<close>

subsection \<open>What RANGE matches\<close>

text \<open>
  The equation of \<open>range_backtrack\<close> is replaced, for rewriting, by its two instances.
\<close>

declare range_backtrack.simps [simp del]

lemma range_backtrack_0:
  "range_backtrack 0 s = (if 0 < length s \<and> s ! 0 = CHR ''/'' then Some ([], dot_run (drop 1 s)) else None)"
  by (subst range_backtrack.simps) simp

lemma range_backtrack_Suc:
  "range_backtrack (Suc k) s =
     (if Suc k < length s \<and> s ! Suc k = CHR ''/'' then Some (take (Suc k) s, dot_run (drop (Suc (Suc k)) s))
      else range_backtrack k s)"
  by (subst range_backtrack.simps) simp

lemma range_backtrack_None:
  "range_backtrack k s = None \<longleftrightarrow> (\<forall>i\<le>k. i < length s \<longrightarrow> s ! i \<noteq> CHR ''/'')"
proof (induction k)
  case 0
  show ?case by (simp add: range_backtrack_0)
next
  case (Suc k)
  show ?case
    using Suc.IH by (auto simp: le_Suc_eq range_backtrack_Suc)
qed

lemma range_backtrack_Some:
  "range_backtrack k s = Some (l, r) \<Longrightarrow>
     \<exists>j\<le>k. j < length s \<and> s ! j = CHR ''/'' \<and> l = take j s \<and> r = dot_run (drop (Suc j) s)
       \<and> (\<forall>i. j < i \<and> i \<le> k \<and> i < length s \<longrightarrow> s ! i \<noteq> CHR ''/'')"
proof (induction k)
  case 0
  then show ?case by (auto simp: range_backtrack_0 split: if_splits)
next
  case (Suc k)
  show ?case
  proof (cases "Suc k < length s \<and> s ! Suc k = CHR ''/''")
    case True
    with Suc.prems show ?thesis by (auto simp: range_backtrack_Suc)
  next
    case False
    with Suc.prems have "range_backtrack k s = Some (l, r)" by (auto simp: range_backtrack_Suc)
    from Suc.IH[OF this] obtain j where j: "j \<le> k" "j < length s" "s ! j = CHR ''/''"
      "l = take j s" "r = dot_run (drop (Suc j) s)"
      "\<forall>i. j < i \<and> i \<le> k \<and> i < length s \<longrightarrow> s ! i \<noteq> CHR ''/''" by blast
    have "\<forall>i. j < i \<and> i \<le> Suc k \<and> i < length s \<longrightarrow> s ! i \<noteq> CHR ''/''"
      using j(6) False by (auto simp: le_Suc_eq)
    with j show ?thesis by (intro exI[of _ j]) auto
  qed
qed

lemma range_match_at_None:
  "range_match_at s = None \<longleftrightarrow> CHR ''/'' \<notin> set (dot_run s)"
proof -
  have len: "length (dot_run s) \<le> length s"
    by (simp add: dot_run_def length_takeWhile_le)
  have nth: "\<And>i. i < length (dot_run s) \<Longrightarrow> dot_run s ! i = s ! i"
    by (simp add: dot_run_def takeWhile_nth)
  have stop: "length (dot_run s) < length s \<Longrightarrow> s ! length (dot_run s) = newline"
    unfolding dot_run_def using nth_length_takeWhile[of "\<lambda>c. c \<noteq> newline" s] by auto
  show ?thesis
  proof
    assume "range_match_at s = None"
    then have h: "\<forall>i\<le>length (dot_run s). i < length s \<longrightarrow> s ! i \<noteq> CHR ''/''"
      by (simp add: range_match_at_def range_backtrack_None)
    show "CHR ''/'' \<notin> set (dot_run s)"
    proof
      assume "CHR ''/'' \<in> set (dot_run s)"
      then obtain i where "i < length (dot_run s)" "dot_run s ! i = CHR ''/''"
        by (auto simp: in_set_conv_nth)
      with h len nth show False by force
    qed
  next
    assume a: "CHR ''/'' \<notin> set (dot_run s)"
    have "\<forall>i\<le>length (dot_run s). i < length s \<longrightarrow> s ! i \<noteq> CHR ''/''"
    proof (intro allI impI)
      fix i assume i: "i \<le> length (dot_run s)" "i < length s"
      show "s ! i \<noteq> CHR ''/''"
      proof (cases "i < length (dot_run s)")
        case True
        then have "dot_run s ! i \<in> set (dot_run s)" by simp
        with a nth[OF True] show ?thesis by metis
      next
        case False
        with i have "i = length (dot_run s)" by simp
        with stop i show ?thesis by (simp add: newline_def)
      qed
    qed
    then show "range_match_at s = None"
      by (simp add: range_match_at_def range_backtrack_None)
  qed
qed

lemma RANGE_search_None: "RANGE_search s = None \<longleftrightarrow> CHR ''/'' \<notin> set s"
proof (induction s)
  case Nil
  show ?case by (simp add: range_match_at_def dot_run_def range_backtrack_0)
next
  case (Cons c cs)
  have sub: "set (dot_run (c # cs)) \<subseteq> set (c # cs)"
    unfolding dot_run_def by (auto dest: set_takeWhileD)
  have hd: "c = CHR ''/'' \<Longrightarrow> c \<in> set (dot_run (c # cs))"
    by (simp add: dot_run_def newline_def)
  show ?case
  proof (cases "range_match_at (c # cs)")
    case None
    then have "CHR ''/'' \<notin> set (dot_run (c # cs))" by (simp add: range_match_at_None)
    with hd have "c \<noteq> CHR ''/''" by auto
    with None Cons.IH show ?thesis by simp
  next
    case (Some g)
    then have "CHR ''/'' \<in> set (dot_run (c # cs))"
      using range_match_at_None[of "c # cs"] by auto
    with sub have "CHR ''/'' \<in> set (c # cs)" by blast
    with Some show ?thesis by simp
  qed
qed

lemma RANGE_search_one_line:
  assumes "newline \<notin> set s" and "RANGE_search s = Some (l, r)"
  shows "s = l @ ''/'' @ r \<and> CHR ''/'' \<notin> set r"
proof -
  have run: "dot_run s = s"
    using assms(1) by (auto simp: dot_run_def) 
  have slash: "CHR ''/'' \<in> set s"
    using assms(2) RANGE_search_None[of s] by auto
  then have "range_match_at s \<noteq> None"
    using range_match_at_None[of s] run by simp
  then have "RANGE_search s = range_match_at s"
    by (cases s) (auto simp: range_match_at_def)
  with assms(2) have "range_backtrack (length s) s = Some (l, r)"
    by (simp add: range_match_at_def run)
  from range_backtrack_Some[OF this] obtain j where j: "j < length s" "s ! j = CHR ''/''"
      "l = take j s" "r = dot_run (drop (Suc j) s)"
      "\<forall>i. j < i \<and> i \<le> length s \<and> i < length s \<longrightarrow> s ! i \<noteq> CHR ''/''" by blast
  have "newline \<notin> set (drop (Suc j) s)"
    using assms(1) in_set_dropD by fastforce
  then have r: "r = drop (Suc j) s"
    using j(4) by (auto simp: dot_run_def)
  have "s = take j s @ s ! j # drop (Suc j) s"
    using j(1) by (simp add: id_take_nth_drop)
  then have eq: "s = l @ ''/'' @ r" using j r by simp
  have "CHR ''/'' \<notin> set r"
  proof
    assume "CHR ''/'' \<in> set r"
    then obtain i where i: "i < length r" "r ! i = CHR ''/''" by (auto simp: in_set_conv_nth)
    then have "Suc j + i < length s" "s ! (Suc j + i) = CHR ''/''" using r by auto
    with j(5) show False by auto
  qed
  with eq show ?thesis by simp
qed

subsection \<open>The loop of get\_dates\<close>

text \<open>
  A round of the loop adds to \<^verbatim>\<open>solr_dts\<close> what the element contributes on its own, so
  the loop returns the union of the contributions, when no element raises.
\<close>

lemma add_date_acc:
  "add_date parse S d = (case add_date parse {} d of Inl e \<Rightarrow> Inl e | Inr C \<Rightarrow> Inr (S \<union> C))"
  by (auto simp: add_date_def split: pyval.splits option.splits sum.splits prod.splits)

lemma add_date_finite: "add_date parse {} d = Inr C \<Longrightarrow> finite C"
  by (auto simp: add_date_def split: pyval.splits option.splits sum.splits prod.splits)

lemma dates_loop_Inr:
  "dates_loop parse S xs = Inr T \<longleftrightarrow>
     (\<forall>x\<in>set xs. \<exists>C. add_date parse {} x = Inr C) \<and>
     T = S \<union> (\<Union>x\<in>set xs. projr (add_date parse {} x))"
proof (induction xs arbitrary: S)
  case Nil
  show ?case by auto
next
  case (Cons x xs)
  show ?case
  proof (cases "add_date parse {} x")
    case (Inl e)
    then show ?thesis by (subst add_date_acc) (auto simp: add_date_acc[of _ S])
  next
    case (Inr C)
    then have "add_date parse S x = Inr (S \<union> C)" by (simp add: add_date_acc[of _ S])
    then show ?thesis using Inr Cons.IH[of "S \<union> C"] by auto
  qed
qed

lemma dates_loop_finite:
  "dates_loop parse S xs = Inr T \<Longrightarrow> finite S \<Longrightarrow> finite T"
proof (induction xs arbitrary: S)
  case Nil
  then show ?case by simp
next
  case (Cons x xs)
  from Cons.prems(1) obtain C where C: "add_date parse {} x = Inr C"
    and loop: "dates_loop parse (S \<union> C) xs = Inr T"
    by (auto simp: add_date_acc[of _ S] split: sum.splits)
  from add_date_finite[OF C] Cons.prems(2) have "finite (S \<union> C)" by simp
  from Cons.IH[OF loop this] show ?case .
qed

lemma get_dates_sorted_distinct:
  assumes "get_dates parse dates = Inr v"
  shows "\<exists>ds. v = PList (map PDatetime ds) \<and> sorted ds \<and> distinct ds"
proof (cases "py_iter dates")
  case None
  with assms have "v = PList (map PDatetime [])" by (simp add: get_dates_def)
  then show ?thesis by (intro exI[of _ "[]"]) simp
next
  case (Some xs)
  with assms obtain T where T: "dates_loop parse {} xs = Inr T"
    and v: "v = PList (map PDatetime (sorted_list_of_set T))"
    by (auto simp: get_dates_def split: sum.splits)
  show ?thesis using v by (intro exI[of _ "sorted_list_of_set T"]) simp
qed

lemma dates_loop_same_set:
  assumes "set xs = set ys" and "dates_loop parse {} xs = Inr T"
  shows "dates_loop parse {} ys = Inr T"
proof -
  from assms(2) have "(\<forall>x\<in>set xs. \<exists>C. add_date parse {} x = Inr C) \<and>
      T = {} \<union> (\<Union>x\<in>set xs. projr (add_date parse {} x))"
    by (rule iffD1[OF dates_loop_Inr])
  then have "(\<forall>x\<in>set ys. \<exists>C. add_date parse {} x = Inr C) \<and>
      T = {} \<union> (\<Union>x\<in>set ys. projr (add_date parse {} x))"
    unfolding assms(1) .
  then show ?thesis by (rule iffD2[OF dates_loop_Inr])
qed

lemma get_dates_same_set:
  assumes "set xs = set ys" and "get_dates parse (PList xs) = Inr years"
  shows "get_dates parse (PList ys) = Inr years"
proof -
  from assms(2) obtain T where T: "dates_loop parse {} xs = Inr T"
    and y: "years = PList (map PDatetime (sorted_list_of_set T))"
    by (auto simp: get_dates_def split: sum.splits)
  from dates_loop_same_set[OF assms(1) T] y show ?thesis
    by (simp add: get_dates_def)
qed

subsection \<open>One-element lists\<close>

lemma get_dates_singleton_plain:
  assumes "CHR ''/'' \<notin> set s"
  shows "get_dates parse (PList [PStr s]) =
     (case get_date parse s of
        Inl err \<Rightarrow> Inl err
      | Inr None \<Rightarrow> Inr (PList [])
      | Inr (Some d) \<Rightarrow> Inr (PList [PDatetime d]))"
proof -
  from assms have "RANGE_search s = None" by (simp add: RANGE_search_None)
  then show ?thesis
    by (simp add: get_dates_def add_date_def split: sum.splits option.splits)
qed

lemma get_dates_singleton_range:
  assumes "RANGE_search s = Some (l, r)"
  shows "get_dates parse (PList [PStr s]) =
     (case get_date parse l of
        Inl err \<Rightarrow> Inl err
      | Inr start \<Rightarrow>
          (case get_date parse r of
             Inl err \<Rightarrow> Inl err
           | Inr end \<Rightarrow>
               Inr (PList (case (start, end) of
                             (Some a, Some b) \<Rightarrow> map PDatetime (sorted_list_of_set {a, b})
                           | _ \<Rightarrow> []))))"
  using assms
  by (simp add: get_dates_def add_date_def split: sum.splits option.splits)

subsection \<open>What get\_dates returns\<close>

text \<open>
  The docstrings promise integer years (\<^verbatim>\<open>get_dates\<close>: "Maps a list of 'normalized_date'
  strings to a sorted list of integer years"; \<^verbatim>\<open>get_date\<close>: "Extracts the single 4-digit
  year found in the input date string"), but \<^verbatim>\<open>get_date\<close> returns the datetime that the
  parser built, and \<^verbatim>\<open>get_dates\<close> collects and sorts those datetimes. What does hold of
  every result is that it is an ascending list of distinct datetimes
  (\<open>get_dates_sorted_distinct\<close>), and the vectors whose expected value is the empty list.
\<close>

lemma get_dates_reference_vectors:
  "get_dates four_digit_parse (PList [PStr ''1923/1925'']) =
     Inr (PList [PDatetime (1923, 1, 1, 0, 0, 0, 0), PDatetime (1925, 1, 1, 0, 0, 0, 0)])"
  "get_dates four_digit_parse (PList [PStr ''1978'']) = Inr (PList [PDatetime (1978, 1, 1, 0, 0, 0, 0)])"
  "get_dates four_digit_parse (PList [PStr ''not-a-date'']) = Inr (PList [])"
  "get_dates parse PNone = Inr (PList [])"
  by code_simp+

text \<open>
  Claim C1. \<^verbatim>\<open>get_dates\<close> returns the distinct years as an ascending list of integers, with
  \<^verbatim>\<open>get_dates(["1923"]) == [1923]\<close> among the reference vectors. The code does not: for an
  element without a slash that the parser accepts, the result is the one-element list of the
  parsed datetime, which is no list of an integer.
\<close>

theorem get_dates_yields_datetimes:
  assumes "CHR ''/'' \<notin> set s" and "parse s default_date = Inr d"
  shows "get_dates parse (PList [PStr s]) = Inr (PList [PDatetime d]) \<and>
         get_dates parse (PList [PStr s]) \<noteq> Inr (PList [PInt n])"
  using assms by (simp add: get_dates_singleton_plain get_date_def)

theorem get_dates_yields_datetimes_witness:
  "CHR ''/'' \<notin> set ''1923'' \<and>
   four_digit_parse ''1923'' default_date = Inr (1923, 1, 1, 0, 0, 0, 0) \<and>
   get_dates four_digit_parse (PList [PStr ''1923'']) = Inr (PList [PDatetime (1923, 1, 1, 0, 0, 0, 0)]) \<and>
   get_dates four_digit_parse (PList [PStr ''1923'']) \<noteq> Inr (PList [PInt 1923])"
proof -
  have a: "CHR ''/'' \<notin> set ''1923''" by simp
  have b: "four_digit_parse ''1923'' default_date = Inr (1923, 1, 1, 0, 0, 0, 0)"
    by (simp add: four_digit_parse_def default_date_def is_digit_def digits_value_def)
  from get_dates_yields_datetimes[where parse = four_digit_parse and s = "''1923''"
      and d = "(1923, 1, 1, 0, 0, 0, 0)" and n = 1923, OF a b] a b
  show ?thesis by simp
qed

subsection \<open>The range branch\<close>

text \<open>
  Claim C3, as the code has it. A string element takes the range branch exactly when it
  contains a slash: the pattern is greedy and does not ask for a single slash. For an element
  of one line, the left part is everything before the last slash and the right part everything
  after it. The two parts are parsed independently by \<^verbatim>\<open>get_date\<close>; the element contributes
  both datetimes when both parts parse and nothing when a part does not (an exception of the
  parser other than ValueError propagates); the whole element is never parsed in that branch.
  An element without a slash is parsed as a whole.
\<close>

theorem range_branch:
  "(CHR ''/'' \<in> set s \<longrightarrow>
      (\<exists>l r. RANGE_search s = Some (l, r) \<and>
         (newline \<notin> set s \<longrightarrow> s = l @ ''/'' @ r \<and> CHR ''/'' \<notin> set r) \<and>
         get_dates parse (PList [PStr s]) =
           (case get_date parse l of
              Inl err \<Rightarrow> Inl err
            | Inr start \<Rightarrow>
                (case get_date parse r of
                   Inl err \<Rightarrow> Inl err
                 | Inr end \<Rightarrow>
                     Inr (PList (case (start, end) of
                                   (Some a, Some b) \<Rightarrow> map PDatetime (sorted_list_of_set {a, b})
                                 | _ \<Rightarrow> [])))))) \<and>
   (CHR ''/'' \<notin> set s \<longrightarrow>
      RANGE_search s = None \<and>
      get_dates parse (PList [PStr s]) =
        (case get_date parse s of
           Inl err \<Rightarrow> Inl err
         | Inr None \<Rightarrow> Inr (PList [])
         | Inr (Some d) \<Rightarrow> Inr (PList [PDatetime d])))"
proof (intro conjI impI)
  assume "CHR ''/'' \<in> set s"
  then obtain l r where lr: "RANGE_search s = Some (l, r)"
    using RANGE_search_None[of s] by (cases "RANGE_search s") auto
  have "newline \<notin> set s \<longrightarrow> s = l @ ''/'' @ r \<and> CHR ''/'' \<notin> set r"
    using RANGE_search_one_line[OF _ lr] by blast
  with lr get_dates_singleton_range[OF lr, of parse]
  show "\<exists>l r. RANGE_search s = Some (l, r) \<and>
         (newline \<notin> set s \<longrightarrow> s = l @ ''/'' @ r \<and> CHR ''/'' \<notin> set r) \<and>
         get_dates parse (PList [PStr s]) =
           (case get_date parse l of
              Inl err \<Rightarrow> Inl err
            | Inr start \<Rightarrow>
                (case get_date parse r of
                   Inl err \<Rightarrow> Inl err
                 | Inr end \<Rightarrow>
                     Inr (PList (case (start, end) of
                                   (Some a, Some b) \<Rightarrow> map PDatetime (sorted_list_of_set {a, b})
                                 | _ \<Rightarrow> []))))"
    by blast
next
  assume "CHR ''/'' \<notin> set s"
  then show "RANGE_search s = None" by (simp add: RANGE_search_None)
next
  assume "CHR ''/'' \<notin> set s"
  then show "get_dates parse (PList [PStr s]) =
        (case get_date parse s of
           Inl err \<Rightarrow> Inl err
         | Inr None \<Rightarrow> Inr (PList [])
         | Inr (Some d) \<Rightarrow> Inr (PList [PDatetime d]))"
    by (rule get_dates_singleton_plain)
qed

theorem range_branch_witness:
  "CHR ''/'' \<in> set ''1923/1925'' \<and>
   RANGE_search ''1923/1925'' = Some (''1923'', ''1925'') \<and>
   get_dates four_digit_parse (PList [PStr ''1923/1925'']) =
     Inr (PList [PDatetime (1923, 1, 1, 0, 0, 0, 0), PDatetime (1925, 1, 1, 0, 0, 0, 0)])"
proof -
  have a: "CHR ''/'' \<in> set ''1923/1925''" by simp
  have g: "RANGE_search ''1923/1925'' = Some (''1923'', ''1925'')" by code_simp
  have p1: "get_date four_digit_parse ''1923'' = Inr (Some (1923, 1, 1, 0, 0, 0, 0))"
    by (simp add: get_date_def four_digit_parse_def default_date_def is_digit_def digits_value_def)
  have p2: "get_date four_digit_parse ''1925'' = Inr (Some (1925, 1, 1, 0, 0, 0, 0))"
    by (simp add: get_date_def four_digit_parse_def default_date_def is_digit_def digits_value_def)
  have srt: "sorted_list_of_set {(1923, 1, 1, 0, 0, 0, 0), (1925, 1, 1, 0, 0, 0, 0) :: datetime} =
      [(1923, 1, 1, 0, 0, 0, 0), (1925, 1, 1, 0, 0, 0, 0)]"
    by code_simp
  from range_branch[of "''1923/1925''" four_digit_parse] a
  obtain l r where lr: "RANGE_search ''1923/1925'' = Some (l, r)"
    and v: "get_dates four_digit_parse (PList [PStr ''1923/1925'']) =
           (case get_date four_digit_parse l of
              Inl err \<Rightarrow> Inl err
            | Inr start \<Rightarrow>
                (case get_date four_digit_parse r of
                   Inl err \<Rightarrow> Inl err
                 | Inr end \<Rightarrow>
                     Inr (PList (case (start, end) of
                                   (Some a, Some b) \<Rightarrow> map PDatetime (sorted_list_of_set {a, b})
                                 | _ \<Rightarrow> []))))"
    by blast
  from lr g have "l = ''1923''" and "r = ''1925''" by simp_all
  with v p1 p2 srt have "get_dates four_digit_parse (PList [PStr ''1923/1925'']) =
     Inr (PList [PDatetime (1923, 1, 1, 0, 0, 0, 0), PDatetime (1925, 1, 1, 0, 0, 0, 0)])"
    by simp
  with a g show ?thesis by blast
qed

text \<open>
  Claim C3 as stated asks for exactly one separating slash and non-greedy sides. An element
  with two slashes takes the range branch all the same, and its left part is the longest
  possible one, slash included.
\<close>

theorem range_exactly_one_slash_counterexample:
  "RANGE_search ''1923/1924/1925'' = Some (''1923/1924'', ''1925'')"
  by code_simp

subsection \<open>Order and duplicates\<close>

text \<open>
  Claim C4. \<^verbatim>\<open>get_dates\<close> is order-independent and duplicate-insensitive: two lists with the
  same elements, whatever their order and however often each occurs (a permutation of a list,
  or a list with some elements repeated, has the same set of elements), give the same sorted
  list. The list is the list of datetimes that the code returns. When the parser raises an
  exception other than ValueError on some element, \<^verbatim>\<open>get_dates\<close> raises on both lists.
\<close>

theorem get_dates_order_and_duplicates:
  assumes "set xs = set ys"
  shows "get_dates parse (PList xs) = Inr years \<longleftrightarrow> get_dates parse (PList ys) = Inr years"
  using get_dates_same_set[OF assms] get_dates_same_set[OF assms[symmetric]] by blast

theorem get_dates_order_and_duplicates_witness:
  "set [PStr ''1925'', PStr ''1923''] = set [PStr ''1923'', PStr ''1925'', PStr ''1923''] \<and>
   get_dates four_digit_parse (PList [PStr ''1925'', PStr ''1923'']) =
     Inr (PList [PDatetime (1923, 1, 1, 0, 0, 0, 0), PDatetime (1925, 1, 1, 0, 0, 0, 0)]) \<and>
   get_dates four_digit_parse (PList [PStr ''1923'', PStr ''1925'', PStr ''1923'']) =
     Inr (PList [PDatetime (1923, 1, 1, 0, 0, 0, 0), PDatetime (1925, 1, 1, 0, 0, 0, 0)])"
proof -
  have s: "set [PStr ''1925'', PStr ''1923''] = set [PStr ''1923'', PStr ''1925'', PStr ''1923'']"
    by auto
  have v: "get_dates four_digit_parse (PList [PStr ''1925'', PStr ''1923'']) =
     Inr (PList [PDatetime (1923, 1, 1, 0, 0, 0, 0), PDatetime (1925, 1, 1, 0, 0, 0, 0)])"
    by code_simp
  from get_dates_order_and_duplicates[OF s, where parse = four_digit_parse
      and years = "PList [PDatetime (1923, 1, 1, 0, 0, 0, 0), PDatetime (1925, 1, 1, 0, 0, 0, 0)]"] v s
  show ?thesis by simp
qed

section \<open>Properties of feed\_ursus.py\<close>

subsection \<open>Dicts and the column loop\<close>

lemma map_of_dict_set: "map_of (dict_set d k v) = (map_of d)(k \<mapsto> v)"
  by (induction d) (auto simp: fun_eq_iff)

lemma dict_get_dict_set:
  "dict_get (dict_set d k v) k' = (if k' = k then v else dict_get d k')"
  by (simp add: dict_get_def map_of_dict_set)

lemma keys_dict_set: "fst ` set (dict_set d k v) = insert k (fst ` set d)"
proof -
  have "fst ` set (dict_set d k v) = dom (map_of (dict_set d k v))"
    by (simp add: dom_map_of_conv_image_fst)
  also have "\<dots> = insert k (dom (map_of d))"
    by (simp add: map_of_dict_set)
  also have "\<dots> = insert k (fst ` set d)"
    by (simp add: dom_map_of_conv_image_fst)
  finally show ?thesis .
qed

lemma extend_output_strings:
  assumes "\<forall>c\<in>set cols. string_cell row c"
  shows "extend_output row out cols = Inr (out @ concat (map (spec_fragments row) cols))"
  using assms
proof (induction cols arbitrary: out)
  case Nil
  show ?case by simp
next
  case (Cons c cols)
  from Cons.prems have c: "string_cell row c" and rest: "\<forall>c\<in>set cols. string_cell row c"
    by simp_all
  show ?case
    using c Cons.IH[OF rest]
    by (auto simp: string_cell_def spec_fragments_def split: option.splits pyval.splits)
qed

lemma extend_output_error:
  "extend_output row out cols = Inl err \<Longrightarrow> err = Exc AttributeError"
proof (induction cols arbitrary: out)
  case Nil
  then show ?case by simp
next
  case (Cons c cols)
  then show ?case
    by (auto simp: Let_def split: if_splits pyval.splits)
qed

lemma map_columns_error:
  "map_columns row field_name config cols = Inl err \<Longrightarrow> err = Exc AttributeError"
  by (auto simp: map_columns_def split: sum.splits dest: extend_output_error)

subsection \<open>Column rules\<close>

text \<open>
  Claim C5. For a single-column rule or a column-list rule over cells that are missing, null
  or strings, \<^verbatim>\<open>map_field_value\<close> splits each non-empty cell on \<^verbatim>\<open>|~|\<close>, concatenates the
  fragments in column order and, within a column, in split order, passes them through the
  controlled-vocabulary pass and drops the false values from the final list. Where no
  vocabulary table applies to the field the result is the list of the non-empty fragments;
  so a single-column rule over the cell \<^verbatim>\<open>"a|~|b|~|"\<close> yields \<^verbatim>\<open>["a", "b"]\<close>.
\<close>

theorem map_field_value_columns:
  assumes "map_of (FIELD_MAPPING ext) field_name = Some rule"
    and "rule = RStr c \<and> cols = [c] \<or> rule = RCollection cols"
    and "\<forall>c\<in>set cols. string_cell row c"
  shows "map_field_value ext row field_name config =
           Inr (PList (filter truthy
                  (substitute_terms config field_name (concat (map (spec_fragments row) cols))))) \<and>
         ((case controlled_fields config of None \<Rightarrow> Map.empty | Some cf \<Rightarrow> cf)
             (field_name_without_suffix field_name) = None \<longrightarrow>
          map_field_value ext row field_name config =
            Inr (PList (map PStr (filter (\<lambda>fragment. fragment \<noteq> [])
                   (concat (map (spec_fragments row) cols))))))"
proof -
  have mc: "map_field_value ext row field_name config = map_columns row field_name config cols"
    using assms(1,2) by (auto simp: map_field_value_def)
  have out: "extend_output row [] cols = Inr (concat (map (spec_fragments row) cols))"
    using extend_output_strings[OF assms(3), of "[]"] by simp
  have general: "map_field_value ext row field_name config =
           Inr (PList (filter truthy
                  (substitute_terms config field_name (concat (map (spec_fragments row) cols)))))"
    by (simp add: mc map_columns_def out)
  have plain: "filter truthy (map PStr xs) = map PStr (filter (\<lambda>fragment. fragment \<noteq> []) xs)" for xs
    by (induction xs) auto
  show ?thesis
    using general by (auto simp: substitute_terms_def plain)
qed

theorem map_field_value_columns_witness:
  "map_of (FIELD_MAPPING sample_externals) ''subject_tesim'' = Some (RStr ''Subject'') \<and>
   string_cell sample_row ''Subject'' \<and>
   (case controlled_fields sample_config of None \<Rightarrow> Map.empty | Some cf \<Rightarrow> cf)
      (field_name_without_suffix ''subject_tesim'') = None \<and>
   spec_fragments sample_row ''Subject'' = [''a'', ''b'', ''''] \<and>
   map_field_value sample_externals sample_row ''subject_tesim'' sample_config =
     Inr (PList [PStr ''a'', PStr ''b''])"
proof -
  have a: "map_of (FIELD_MAPPING sample_externals) ''subject_tesim'' = Some (RStr ''Subject'')"
    by (simp add: sample_externals_def sample_mapping_def)
  have b: "RStr ''Subject'' = RStr ''Subject'' \<and> [''Subject''] = [''Subject''] \<or>
           RStr ''Subject'' = RCollection [''Subject'']" by simp
  have c: "\<forall>c\<in>set [''Subject'']. string_cell sample_row c"
    by (simp add: string_cell_def sample_row_def)
  have d: "(case controlled_fields sample_config of None \<Rightarrow> Map.empty | Some cf \<Rightarrow> cf)
      (field_name_without_suffix ''subject_tesim'') = None"
    by code_simp
  have e: "spec_fragments sample_row ''Subject'' = [''a'', ''b'', '''']"
    by code_simp
  from map_field_value_columns[OF a b c, of sample_config]
  have "(case controlled_fields sample_config of None \<Rightarrow> Map.empty | Some cf \<Rightarrow> cf)
             (field_name_without_suffix ''subject_tesim'') = None \<longrightarrow>
          map_field_value sample_externals sample_row ''subject_tesim'' sample_config =
            Inr (PList (map PStr (filter (\<lambda>fragment. fragment \<noteq> [])
                   (concat (map (spec_fragments sample_row) [''Subject''])))))"
    by (rule conjunct2)
  from this d have "map_field_value sample_externals sample_row ''subject_tesim'' sample_config =
            Inr (PList (map PStr (filter (\<lambda>fragment. fragment \<noteq> [])
                   (concat (map (spec_fragments sample_row) [''Subject''])))))"
    by (rule mp)
  with e have "map_field_value sample_externals sample_row ''subject_tesim'' sample_config =
     Inr (PList [PStr ''a'', PStr ''b''])" by simp
  moreover have "string_cell sample_row ''Subject''"
    by (simp add: string_cell_def sample_row_def)
  ultimately show ?thesis using a d e by blast
qed

subsection \<open>The controlled-vocabulary pass\<close>

text \<open>
  When a vocabulary table exists for the base name, a fragment that is a term-id is replaced
  by the term and any other fragment is kept. With the table \<^verbatim>\<open>{"1": "Photograph"}\<close> for
  \<^verbatim>\<open>genre\<close>, the cell \<^verbatim>\<open>"1|~|2"\<close> of the field \<^verbatim>\<open>genre_tesim\<close> gives
  \<^verbatim>\<open>["Photograph", "2"]\<close>.
\<close>

lemma substitute_terms_table:
  assumes "controlled_fields config = Some cf"
    and "cf (field_name_without_suffix field_name) = Some terms"
  shows "substitute_terms config field_name out =
           map (\<lambda>value. case terms value of Some t \<Rightarrow> t | None \<Rightarrow> PStr value) out"
  using assms by (simp add: substitute_terms_def)

lemma vocabulary_reference_vectors:
  "field_name_without_suffix ''genre_tesim'' = ''genre''"
  "map_field_value sample_externals sample_row ''genre_tesim'' sample_config =
     Inr (PList [PStr ''Photograph'', PStr ''2''])"
  by code_simp+

text \<open>
  The base name is what remains in front of the first underscore from which only word
  characters follow up to the end, since the underscore is a word character itself and the
  matcher takes the leftmost match.
\<close>

lemma sub_suffix_delete: "sub_suffix (length b) b = []"
  by (induction b) auto

lemma sub_suffix_no_underscore:
  "CHR ''_'' \<notin> set a \<Longrightarrow> sub_suffix 0 (a @ rest) = a @ sub_suffix 0 rest"
  by (induction a) auto

lemma suffix_backtrack_whole:
  "b \<noteq> [] \<Longrightarrow> suffix_backtrack (length b) b = Some (length b)"
  by (cases b) (auto simp: at_end_def)

lemma field_name_without_suffix_first_underscore:
  assumes "CHR ''_'' \<notin> set a" and "b \<noteq> []" and "\<forall>c\<in>set b. is_word_char c"
  shows "field_name_without_suffix (a @ ''_'' @ b) = a"
proof -
  have tw: "takeWhile is_word_char b = b"
    using assms(3) by (simp add: takeWhile_eq_all_conv)
  have "suffix_match_at (''_'' @ b) = Some (Suc (length b))"
    using suffix_backtrack_whole[OF assms(2)] by (simp add: tw)
  then have "sub_suffix 0 (''_'' @ b) = []"
    by (simp add: sub_suffix_delete)
  with sub_suffix_no_underscore[OF assms(1), of "''_'' @ b"]
  show ?thesis by (simp add: field_name_without_suffix_def)
qed

text \<open>
  Claim C6. The base field name is the field name without one trailing \<^verbatim>\<open>_<suffix>\<close> token,
  the suffix being the word characters after the last underscore, and fragments are replaced
  by the terms of the vocabulary table of that base name. The code does not do this for a
  field name with more than one underscore: for \<^verbatim>\<open>resource_type_tesim\<close> the variable
  \<^verbatim>\<open>field_name_without_suffix\<close> is \<^verbatim>\<open>resource\<close>, not \<^verbatim>\<open>resource_type\<close>, so the table
  \<^verbatim>\<open>{"1": "Photograph"}\<close> that the configuration has for \<^verbatim>\<open>resource_type\<close> is not found and
  the fragment \<^verbatim>\<open>"1"\<close> stays as it is.
\<close>

theorem suffix_strip_first_underscore:
  "field_name_without_suffix ''resource_type_tesim'' = ''resource'' \<and>
   (case controlled_fields sample_config of None \<Rightarrow> None | Some cf \<Rightarrow> cf ''resource_type'') \<noteq> None \<and>
   cell sample_row ''Type.typeOfResource'' = PStr ''1'' \<and>
   map_field_value sample_externals sample_row ''resource_type_tesim'' sample_config =
     Inr (PList [PStr ''1''])"
  by code_simp

subsection \<open>Malformed rules\<close>

text \<open>
  Claim C7. \<^verbatim>\<open>map_field_value\<close> raises its configuration error exactly for a rule that is
  not null, not callable, not a string and not a collection; for every other rule it does
  not raise this error (a computed rule may raise an exception of its own, and a column rule
  an AttributeError on a cell that is true and not a string).
\<close>

theorem map_field_value_config_error:
  assumes "map_of (FIELD_MAPPING ext) field_name = Some rule"
  shows "map_field_value ext row field_name config = Inl MappingTypeError \<longleftrightarrow> rule = ROther"
proof (cases rule)
  case RNone
  with assms show ?thesis by (simp add: map_field_value_def)
next
  case (RCallable f)
  with assms show ?thesis by (simp add: map_field_value_def split: sum.splits)
next
  case (RStr c)
  with assms show ?thesis
    by (auto simp: map_field_value_def dest: map_columns_error)
next
  case (RCollection cs)
  with assms show ?thesis
    by (auto simp: map_field_value_def dest: map_columns_error)
next
  case ROther
  with assms show ?thesis by (simp add: map_field_value_def)
qed

theorem map_field_value_config_error_witness:
  "map_of (FIELD_MAPPING (sample_externals\<lparr>FIELD_MAPPING := [(''title_tesim'', ROther)]\<rparr>))
      ''title_tesim'' = Some ROther \<and>
   map_field_value (sample_externals\<lparr>FIELD_MAPPING := [(''title_tesim'', ROther)]\<rparr>)
      sample_row ''title_tesim'' sample_config = Inl MappingTypeError \<and>
   map_of (FIELD_MAPPING sample_externals) ''subject_tesim'' = Some (RStr ''Subject'') \<and>
   map_field_value sample_externals sample_row ''subject_tesim'' sample_config \<noteq> Inl MappingTypeError"
proof -
  have a: "map_of (FIELD_MAPPING (sample_externals\<lparr>FIELD_MAPPING := [(''title_tesim'', ROther)]\<rparr>))
      ''title_tesim'' = Some ROther" by simp
  have b: "map_of (FIELD_MAPPING sample_externals) ''subject_tesim'' = Some (RStr ''Subject'')"
    by (simp add: sample_externals_def sample_mapping_def)
  from map_field_value_config_error[OF a, of sample_row sample_config]
       map_field_value_config_error[OF b, of sample_row sample_config] a b
  show ?thesis by simp
qed

subsection \<open>The stages of map\_record\<close>

lemma base_pass_keys:
  "base_pass ext row config rcd names = Inr record' \<Longrightarrow>
     fst ` set record' = fst ` set rcd \<union> set names"
proof (induction names arbitrary: rcd)
  case Nil
  then show ?case by simp
next
  case (Cons f names)
  from Cons.prems obtain v where v: "map_field_value ext row f config = Inr v"
    and rest: "base_pass ext row config (dict_set rcd f v) names = Inr record'"
    by (auto split: sum.splits)
  from Cons.IH[OF rest] show ?case by (auto simp: keys_dict_set)
qed

lemma backfill_keys:
  "backfill_collection_name row config record = Inr record' \<Longrightarrow>
     fst ` set record \<subseteq> fst ` set record'"
  by (force simp: backfill_collection_name_def keys_dict_set split: option.splits if_splits)

lemma mirror_facets_keys: "fst ` set rcd \<subseteq> fst ` set (mirror_facets rcd facets)"
proof (induction facets arbitrary: rcd)
  case Nil
  show ?case by simp
next
  case (Cons p facets)
  obtain facet display where p: "p = (facet, display)" by (cases p)
  have "fst ` set rcd \<subseteq> fst ` set (dict_set rcd facet (dict_get rcd display))"
    by (auto simp: keys_dict_set)
  also have "\<dots> \<subseteq> fst ` set (mirror_facets (dict_set rcd facet (dict_get rcd display)) facets)"
    by (rule Cons.IH)
  finally show ?case by (simp add: p)
qed

lemma map_record_stages:
  assumes "map_record ext row config = Inr record"
  obtains base thumb filled where
    "base_pass ext row config [] (map fst (FIELD_MAPPING ext)) = Inr base"
    "resolve_thumbnail ext base config = Inr thumb"
    "backfill_collection_name row config (dict_set base ''thumbnail_url_ss'' thumb) = Inr filled"
    "record = mirror_facets filled facet_fields"
  using assms by (auto simp: map_record_def split: sum.splits)

lemma map_record_keys:
  assumes "map_record ext row config = Inr record"
    and "field_name \<in> fst ` set (FIELD_MAPPING ext)"
  shows "field_name \<in> fst ` set record"
proof -
  from assms(1) obtain base thumb filled where
    b: "base_pass ext row config [] (map fst (FIELD_MAPPING ext)) = Inr base" and
    f: "backfill_collection_name row config (dict_set base ''thumbnail_url_ss'' thumb) = Inr filled" and
    r: "record = mirror_facets filled facet_fields"
    by (rule map_record_stages)
  from base_pass_keys[OF b] assms(2) have "field_name \<in> fst ` set base" by simp
  then have "field_name \<in> fst ` set (dict_set base ''thumbnail_url_ss'' thumb)"
    by (simp add: keys_dict_set)
  with backfill_keys[OF f] have "field_name \<in> fst ` set filled" by blast
  with mirror_facets_keys[of filled facet_fields] r show ?thesis by blast
qed

lemma mirror_facets_year:
  "dict_get (mirror_facets filled facet_fields) ''year_isim'' = dict_get filled ''year_tesim''"
  by (simp add: facet_fields_def dict_get_dict_set)

lemma mirror_facets_display:
  assumes "k \<notin> fst ` set facets"
  shows "dict_get (mirror_facets rcd facets) k = dict_get rcd k"
  using assms
proof (induction facets arbitrary: rcd)
  case Nil
  show ?case by simp
next
  case (Cons p facets)
  obtain facet display where p: "p = (facet, display)" by (cases p)
  from Cons.prems p have "k \<noteq> facet" and "k \<notin> fst ` set facets" by auto
  with Cons.IH[of "dict_set rcd facet (dict_get rcd display)"] show ?case
    by (simp add: p dict_get_dict_set)
qed

lemma mirror_facets_facet_key:
  assumes "k \<in> fst ` set facets"
  shows "k \<in> fst ` set (mirror_facets rcd facets)"
  using assms
proof (induction facets arbitrary: rcd)
  case Nil
  then show ?case by simp
next
  case (Cons p facets)
  obtain facet display where p: "p = (facet, display)" by (cases p)
  show ?case
  proof (cases "k \<in> fst ` set facets")
    case True
    from Cons.IH[OF this] show ?thesis by (simp add: p)
  next
    case False
    with Cons.prems p have "k = facet" by auto
    then have "k \<in> fst ` set (dict_set rcd facet (dict_get rcd display))"
      by (simp add: keys_dict_set)
    with mirror_facets_keys[of "dict_set rcd facet (dict_get rcd display)" facets]
    show ?thesis by (auto simp: p)
  qed
qed

lemma backfill_other:
  assumes "backfill_collection_name row config rcd = Inr filled"
    and "k \<noteq> ''dlcs_collection_name_tesim''"
  shows "dict_get filled k = dict_get rcd k"
  using assms
  by (auto simp: backfill_collection_name_def dict_get_dict_set split: option.splits if_splits)

text \<open>The sample row under the sample schema and configuration.\<close>

lemma sample_record:
  "map_record sample_externals sample_row sample_config =
   Inr [(''ark_ssi'', PStr ''ark:/21198/z1''),
      (''thumbnail_url_ss'', PStr ''https://iiif.example/img1/full/!200,200/0/default.jpg''),
      (''iiif_manifest_url_ssi'', PStr ''https://iiif.example/manifest''),
      (''genre_tesim'', PList [PStr ''Photograph'', PStr ''2'']),
      (''resource_type_tesim'', PList [PStr ''1'']),
      (''subject_tesim'', PList [PStr ''a'', PStr ''b'']),
      (''year_tesim'', PList [PStr ''1923/1925'']),
      (''title_tesim'', PNone),
      (''dlcs_collection_name_tesim'', PList [PStr ''Sinai Palimpsests'']),
      (''genre_sim'', PList [PStr ''Photograph'', PStr ''2'']),
      (''human_readable_language_sim'', PNone),
      (''human_readable_resource_type_sim'', PList [PStr ''1'']),
      (''location_sim'', PNone),
      (''member_of_collections_ssim'', PList [PStr ''Sinai Palimpsests'']),
      (''named_subject_sim'', PNone),
      (''subject_sim'', PList [PStr ''a'', PStr ''b'']),
      (''year_isim'', PList [PStr ''1923/1925''])]"
  by code_simp

lemma sample_base:
  "base_pass sample_externals sample_row sample_config [] (map fst (FIELD_MAPPING sample_externals)) =
   Inr [(''ark_ssi'', PStr ''ark:/21198/z1''),
      (''thumbnail_url_ss'', PList []),
      (''iiif_manifest_url_ssi'', PStr ''https://iiif.example/manifest''),
      (''genre_tesim'', PList [PStr ''Photograph'', PStr ''2'']),
      (''resource_type_tesim'', PList [PStr ''1'']),
      (''subject_tesim'', PList [PStr ''a'', PStr ''b'']),
      (''year_tesim'', PList [PStr ''1923/1925'']),
      (''title_tesim'', PNone)]"
  by code_simp

lemma sample_base_thumb:
  "base_pass sample_externals (sample_row(''Thumbnail URL'' \<mapsto> PStr ''https://iiif.example/t.jpg''))
     sample_config [] (map fst (FIELD_MAPPING sample_externals)) =
   Inr [(''ark_ssi'', PStr ''ark:/21198/z1''),
      (''thumbnail_url_ss'', PList [PStr ''https://iiif.example/t.jpg'']),
      (''iiif_manifest_url_ssi'', PStr ''https://iiif.example/manifest''),
      (''genre_tesim'', PList [PStr ''Photograph'', PStr ''2'']),
      (''resource_type_tesim'', PList [PStr ''1'']),
      (''subject_tesim'', PList [PStr ''a'', PStr ''b'']),
      (''year_tesim'', PList [PStr ''1923/1925'']),
      (''title_tesim'', PNone)]"
  by code_simp

subsection \<open>The year facet\<close>

text \<open>
  What \<^verbatim>\<open>map_record\<close> assigns to the year facet field: its last statement is
  \<^verbatim>\<open>record["year_isim"] = record.get("year_tesim")\<close>, so the field holds the value that the
  base pass gave to the display field \<^verbatim>\<open>year_tesim\<close>, as it is.
\<close>

lemma year_facet_is_mirror:
  assumes "map_record ext row config = Inr record"
    and "base_pass ext row config [] (map fst (FIELD_MAPPING ext)) = Inr base"
  shows "dict_get record ''year_isim'' = dict_get base ''year_tesim'' \<and>
         dict_get record ''year_tesim'' = dict_get base ''year_tesim'' \<and>
         ''year_isim'' \<in> fst ` set record"
proof -
  from assms(1) obtain base' thumb filled where
    b: "base_pass ext row config [] (map fst (FIELD_MAPPING ext)) = Inr base'" and
    f: "backfill_collection_name row config (dict_set base' ''thumbnail_url_ss'' thumb) = Inr filled" and
    r: "record = mirror_facets filled facet_fields"
    by (rule map_record_stages)
  from b assms(2) have base: "base' = base" by simp
  have "dict_get filled ''year_tesim'' = dict_get (dict_set base ''thumbnail_url_ss'' thumb) ''year_tesim''"
    using backfill_other[OF f] base by simp
  then have y: "dict_get filled ''year_tesim'' = dict_get base ''year_tesim''"
    by (simp add: dict_get_dict_set)
  have 1: "dict_get record ''year_isim'' = dict_get base ''year_tesim''"
    using y by (simp add: r mirror_facets_year)
  have "''year_tesim'' \<notin> fst ` set facet_fields"
    by (simp add: facet_fields_def)
  then have 2: "dict_get record ''year_tesim'' = dict_get base ''year_tesim''"
    using y by (simp add: r mirror_facets_display)
  have "''year_isim'' \<in> fst ` set facet_fields"
    by (simp add: facet_fields_def)
  then have 3: "''year_isim'' \<in> fst ` set record"
    unfolding r by (rule mirror_facets_facet_key)
  from 1 2 3 show ?thesis by blast
qed

text \<open>
  Claim C2. In \<^verbatim>\<open>map_record\<close> the year facet field \<^verbatim>\<open>year_isim\<close> is assigned the result of
  \<^verbatim>\<open>get_dates\<close> on the record's date field, a sorted list of years, and not a verbatim copy
  of the display field. The module \<^verbatim>\<open>date_parser.py\<close> says so of itself ("Creates a
  multi-valued 'year_isim' field by parsing input strings"), but \<^verbatim>\<open>map_record\<close> never calls
  it. On the sample row, whose date is \<^verbatim>\<open>"1923/1925"\<close>, the year facet is the display value
  \<^verbatim>\<open>["1923/1925"]\<close> itself: neither the list of two entries that \<^verbatim>\<open>get_dates\<close> makes of
  that value nor the list of the years 1923 and 1925.
\<close>

theorem year_facet_not_extracted:
  "field_of (map_record sample_externals sample_row sample_config) ''year_tesim'' =
     Inr (PList [PStr ''1923/1925'']) \<and>
   field_of (map_record sample_externals sample_row sample_config) ''year_isim'' =
     Inr (PList [PStr ''1923/1925'']) \<and>
   get_dates four_digit_parse (PList [PStr ''1923/1925'']) =
     Inr (PList [PDatetime (1923, 1, 1, 0, 0, 0, 0), PDatetime (1925, 1, 1, 0, 0, 0, 0)]) \<and>
   field_of (map_record sample_externals sample_row sample_config) ''year_isim'' \<noteq>
     Inr (PList [PInt 1923, PInt 1925])"
  by code_simp

subsection \<open>The thumbnail of the manifest\<close>

text \<open>
  The failures that the body of the \<^verbatim>\<open>try\<close> statement meets: a request or a decoding that
  raises, a manifest without the key \<^verbatim>\<open>sequences\<close>, a manifest without canvases, a manifest
  that is a list.
\<close>

lemma thumbnail_from_manifest_Inr: "\<exists>v. thumbnail_from_manifest ext rcd = Inr v"
  by (simp add: thumbnail_from_manifest_def split: sum.splits)

lemma manifest_body_value:
  "manifest_body ext rcd = Inr v \<Longrightarrow> v = PNone \<or> (\<exists>s. v = PStr s)"
  by (auto simp: manifest_body_def Let_def split: pyval.splits sum.splits option.splits if_splits list.splits)

lemma manifest_body_failures:
  assumes "dict_get rcd ''iiif_manifest_url_ssi'' = PStr url"
  shows "get_json ext url = Inl err \<Longrightarrow> manifest_body ext rcd = Inl err"
    and "get_json ext url = Inr (PDict kvs) \<Longrightarrow> map_of kvs ''sequences'' = None \<Longrightarrow>
           manifest_body ext rcd = Inl KeyError"
    and "get_json ext url = Inr (PDict [(''sequences'', PList [])]) \<Longrightarrow>
           manifest_body ext rcd = Inl IndexError"
    and "get_json ext url = Inr (PList xs) \<Longrightarrow> manifest_body ext rcd = Inl TypeError"
  using assms by (simp_all add: manifest_body_def canvases_get_def)

text \<open>
  Claim C10. \<^verbatim>\<open>thumbnail_from_manifest\<close> never raises: it returns None or a string. It
  returns None when the manifest URL of the record is not a string, whatever the request
  would give, and it returns None whenever fetching, decoding or reading the manifest
  raises.
\<close>

theorem thumbnail_from_manifest_never_raises:
  "(\<exists>v. thumbnail_from_manifest ext record = Inr v \<and> (v = PNone \<or> (\<exists>s. v = PStr s))) \<and>
   ((\<forall>url. dict_get record ''iiif_manifest_url_ssi'' \<noteq> PStr url) \<longrightarrow>
      thumbnail_from_manifest ext record = Inr PNone) \<and>
   (\<forall>err. manifest_body ext record = Inl err \<longrightarrow>
      thumbnail_from_manifest ext record = Inr PNone)"
proof (intro conjI impI allI)
  show "\<exists>v. thumbnail_from_manifest ext record = Inr v \<and> (v = PNone \<or> (\<exists>s. v = PStr s))"
  proof (cases "manifest_body ext record")
    case (Inl e)
    then show ?thesis by (simp add: thumbnail_from_manifest_def)
  next
    case (Inr v)
    with manifest_body_value[OF Inr] show ?thesis by (simp add: thumbnail_from_manifest_def)
  qed
next
  assume "\<forall>url. dict_get record ''iiif_manifest_url_ssi'' \<noteq> PStr url"
  then have "manifest_body ext record = Inr PNone"
    by (cases "dict_get record ''iiif_manifest_url_ssi''") (simp_all add: manifest_body_def)
  then show "thumbnail_from_manifest ext record = Inr PNone"
    by (simp add: thumbnail_from_manifest_def)
next
  fix err assume "manifest_body ext record = Inl err"
  then show "thumbnail_from_manifest ext record = Inr PNone"
    by (simp add: thumbnail_from_manifest_def)
qed

theorem thumbnail_from_manifest_never_raises_witness:
  "(\<forall>url. dict_get [(''iiif_manifest_url_ssi'', PList [PStr ''https://iiif.example/manifest''])]
            ''iiif_manifest_url_ssi'' \<noteq> PStr url) \<and>
   thumbnail_from_manifest sample_externals
     [(''iiif_manifest_url_ssi'', PList [PStr ''https://iiif.example/manifest''])] = Inr PNone \<and>
   manifest_body sample_externals [(''iiif_manifest_url_ssi'', PStr ''https://iiif.example/none'')] =
     Inl OSError \<and>
   thumbnail_from_manifest sample_externals
     [(''iiif_manifest_url_ssi'', PStr ''https://iiif.example/none'')] = Inr PNone"
proof -
  have a: "\<forall>url. dict_get [(''iiif_manifest_url_ssi'', PList [PStr ''https://iiif.example/manifest''])]
            ''iiif_manifest_url_ssi'' \<noteq> PStr url"
    by (simp add: dict_get_def)
  have b: "manifest_body sample_externals [(''iiif_manifest_url_ssi'', PStr ''https://iiif.example/none'')] =
     Inl OSError"
    by (simp add: manifest_body_def dict_get_def sample_externals_def)
  from thumbnail_from_manifest_never_raises[of sample_externals
      "[(''iiif_manifest_url_ssi'', PList [PStr ''https://iiif.example/manifest''])]"] a
  have c: "thumbnail_from_manifest sample_externals
     [(''iiif_manifest_url_ssi'', PList [PStr ''https://iiif.example/manifest''])] = Inr PNone"
    by blast
  from thumbnail_from_manifest_never_raises[of sample_externals
      "[(''iiif_manifest_url_ssi'', PStr ''https://iiif.example/none'')]"] b
  have d: "thumbnail_from_manifest sample_externals
     [(''iiif_manifest_url_ssi'', PStr ''https://iiif.example/none'')] = Inr PNone"
    by blast
  from a b c d show ?thesis by blast
qed

subsection \<open>The thumbnail of a record\<close>

text \<open>
  The base pass reads the schema only, and the thumbnail field of the result is what the
  \<^verbatim>\<open>or\<close> chain gave: the later stages do not touch it.
\<close>

lemma map_field_value_schema_only:
  "FIELD_MAPPING ext' = FIELD_MAPPING ext \<Longrightarrow>
     map_field_value ext' row field_name config = map_field_value ext row field_name config"
  by (simp add: map_field_value_def)

lemma base_pass_schema_only:
  "FIELD_MAPPING ext' = FIELD_MAPPING ext \<Longrightarrow>
     base_pass ext' row config rcd names = base_pass ext row config rcd names"
proof (induction names arbitrary: rcd)
  case Nil
  show ?case by simp
next
  case (Cons f names)
  have "map_field_value ext' row f config = map_field_value ext row f config"
    using Cons.prems by (rule map_field_value_schema_only)
  with Cons.IH[OF Cons.prems] show ?case by (simp split: sum.splits)
qed

lemma resolve_thumbnail_base:
  "truthy (dict_get base ''thumbnail_url_ss'') \<Longrightarrow>
     resolve_thumbnail ext base config = Inr (dict_get base ''thumbnail_url_ss'')"
  by (simp add: resolve_thumbnail_def)

lemma map_record_thumbnail:
  assumes "map_record ext row config = Inr record"
    and "base_pass ext row config [] (map fst (FIELD_MAPPING ext)) = Inr base"
  shows "resolve_thumbnail ext base config = Inr (dict_get record ''thumbnail_url_ss'')"
proof -
  from assms(1) obtain base' thumb filled where
    b: "base_pass ext row config [] (map fst (FIELD_MAPPING ext)) = Inr base'" and
    t: "resolve_thumbnail ext base' config = Inr thumb" and
    f: "backfill_collection_name row config (dict_set base' ''thumbnail_url_ss'' thumb) = Inr filled" and
    r: "record = mirror_facets filled facet_fields"
    by (rule map_record_stages)
  from b assms(2) have base: "base' = base" by simp
  have "''thumbnail_url_ss'' \<notin> fst ` set facet_fields"
    by (simp add: facet_fields_def)
  then have "dict_get record ''thumbnail_url_ss'' = dict_get filled ''thumbnail_url_ss''"
    by (simp add: r mirror_facets_display)
  also have "\<dots> = dict_get (dict_set base' ''thumbnail_url_ss'' thumb) ''thumbnail_url_ss''"
    using backfill_other[OF f] by simp
  also have "\<dots> = thumb" by (simp add: dict_get_dict_set)
  finally show ?thesis using t base by simp
qed

text \<open>
  Claim C9, as the code has it. The chain is one of truth values, not of null tests. When
  the value that the base pass gave to \<^verbatim>\<open>thumbnail_url_ss\<close> is true (neither None nor empty),
  it is the thumbnail, neither fallback is consulted (what \<^verbatim>\<open>thumbnail_from_child\<close> and
  \<^verbatim>\<open>thumbnail_from_manifest\<close> would do, raise included, changes nothing of the record). When
  it is false, the thumbnail is the result of \<^verbatim>\<open>thumbnail_from_child\<close> if that is true, and
  otherwise the result of \<^verbatim>\<open>thumbnail_from_manifest\<close>, a URL or None.
\<close>

theorem thumbnail_resolution:
  assumes "base_pass ext row config [] (map fst (FIELD_MAPPING ext)) = Inr base"
  shows "(truthy (dict_get base ''thumbnail_url_ss'') \<longrightarrow>
            resolve_thumbnail ext base config = Inr (dict_get base ''thumbnail_url_ss'') \<and>
            (\<forall>ext'. FIELD_MAPPING ext' = FIELD_MAPPING ext \<longrightarrow>
               map_record ext' row config = map_record ext row config) \<and>
            (\<forall>record. map_record ext row config = Inr record \<longrightarrow>
               dict_get record ''thumbnail_url_ss'' = dict_get base ''thumbnail_url_ss'')) \<and>
         (\<not> truthy (dict_get base ''thumbnail_url_ss'') \<longrightarrow>
            (\<forall>record. map_record ext row config = Inr record \<longrightarrow>
               (\<exists>child. thumbnail_from_child ext base config = Inr child \<and>
                  (truthy child \<longrightarrow> dict_get record ''thumbnail_url_ss'' = child) \<and>
                  (\<not> truthy child \<longrightarrow>
                     thumbnail_from_manifest ext base =
                       Inr (dict_get record ''thumbnail_url_ss'')))))"
proof (intro conjI impI allI)
  assume t: "truthy (dict_get base ''thumbnail_url_ss'')"
  show "resolve_thumbnail ext base config = Inr (dict_get base ''thumbnail_url_ss'')"
    using t by (rule resolve_thumbnail_base)
next
  fix ext' :: externals
  assume t: "truthy (dict_get base ''thumbnail_url_ss'')"
    and fm: "FIELD_MAPPING ext' = FIELD_MAPPING ext"
  have "base_pass ext' row config [] (map fst (FIELD_MAPPING ext)) =
        base_pass ext row config [] (map fst (FIELD_MAPPING ext))"
    using fm by (rule base_pass_schema_only)
  with assms fm have b': "base_pass ext' row config [] (map fst (FIELD_MAPPING ext')) = Inr base"
    by simp
  show "map_record ext' row config = map_record ext row config"
    by (simp add: map_record_def assms b' resolve_thumbnail_base[OF t])
next
  fix rcd
  assume t: "truthy (dict_get base ''thumbnail_url_ss'')"
    and m: "map_record ext row config = Inr rcd"
  from map_record_thumbnail[OF m assms] resolve_thumbnail_base[OF t, of ext config]
  show "dict_get rcd ''thumbnail_url_ss'' = dict_get base ''thumbnail_url_ss''" by simp
next
  fix rcd
  assume t: "\<not> truthy (dict_get base ''thumbnail_url_ss'')"
    and m: "map_record ext row config = Inr rcd"
  from map_record_thumbnail[OF m assms] t
  show "\<exists>child. thumbnail_from_child ext base config = Inr child \<and>
          (truthy child \<longrightarrow> dict_get rcd ''thumbnail_url_ss'' = child) \<and>
          (\<not> truthy child \<longrightarrow>
             thumbnail_from_manifest ext base = Inr (dict_get rcd ''thumbnail_url_ss''))"
    by (auto simp: resolve_thumbnail_def Let_def split: sum.splits if_splits)
qed

theorem thumbnail_resolution_witness:
  "(\<exists>base. base_pass sample_externals
              (sample_row(''Thumbnail URL'' \<mapsto> PStr ''https://iiif.example/t.jpg''))
              sample_config [] (map fst (FIELD_MAPPING sample_externals)) = Inr base \<and>
           truthy (dict_get base ''thumbnail_url_ss'') \<and>
           resolve_thumbnail sample_externals base sample_config =
             Inr (PList [PStr ''https://iiif.example/t.jpg''])) \<and>
   (\<exists>base rcd. base_pass sample_externals sample_row sample_config []
                  (map fst (FIELD_MAPPING sample_externals)) = Inr base \<and>
               map_record sample_externals sample_row sample_config = Inr rcd \<and>
               \<not> truthy (dict_get base ''thumbnail_url_ss'') \<and>
               thumbnail_from_child sample_externals base sample_config = Inr PNone \<and>
               thumbnail_from_manifest sample_externals base =
                 Inr (PStr ''https://iiif.example/img1/full/!200,200/0/default.jpg'') \<and>
               dict_get rcd ''thumbnail_url_ss'' =
                 PStr ''https://iiif.example/img1/full/!200,200/0/default.jpg'')"
proof -
  let ?b1 = "[(''ark_ssi'', PStr ''ark:/21198/z1''),
      (''thumbnail_url_ss'', PList [PStr ''https://iiif.example/t.jpg'']),
      (''iiif_manifest_url_ssi'', PStr ''https://iiif.example/manifest''),
      (''genre_tesim'', PList [PStr ''Photograph'', PStr ''2'']),
      (''resource_type_tesim'', PList [PStr ''1'']),
      (''subject_tesim'', PList [PStr ''a'', PStr ''b'']),
      (''year_tesim'', PList [PStr ''1923/1925'']),
      (''title_tesim'', PNone)]"
  let ?b0 = "[(''ark_ssi'', PStr ''ark:/21198/z1''),
      (''thumbnail_url_ss'', PList []),
      (''iiif_manifest_url_ssi'', PStr ''https://iiif.example/manifest''),
      (''genre_tesim'', PList [PStr ''Photograph'', PStr ''2'']),
      (''resource_type_tesim'', PList [PStr ''1'']),
      (''subject_tesim'', PList [PStr ''a'', PStr ''b'']),
      (''year_tesim'', PList [PStr ''1923/1925'']),
      (''title_tesim'', PNone)]"
  have g1: "dict_get ?b1 ''thumbnail_url_ss'' = PList [PStr ''https://iiif.example/t.jpg'']"
    by (simp add: dict_get_def)
  then have t1: "truthy (dict_get ?b1 ''thumbnail_url_ss'')" by simp
  have "truthy (dict_get ?b1 ''thumbnail_url_ss'') \<longrightarrow>
            resolve_thumbnail sample_externals ?b1 sample_config =
              Inr (dict_get ?b1 ''thumbnail_url_ss'') \<and>
            (\<forall>ext'. FIELD_MAPPING ext' = FIELD_MAPPING sample_externals \<longrightarrow>
               map_record ext' (sample_row(''Thumbnail URL'' \<mapsto> PStr ''https://iiif.example/t.jpg''))
                 sample_config =
               map_record sample_externals
                 (sample_row(''Thumbnail URL'' \<mapsto> PStr ''https://iiif.example/t.jpg'')) sample_config) \<and>
            (\<forall>record. map_record sample_externals
                 (sample_row(''Thumbnail URL'' \<mapsto> PStr ''https://iiif.example/t.jpg'')) sample_config =
                 Inr record \<longrightarrow>
               dict_get record ''thumbnail_url_ss'' = dict_get ?b1 ''thumbnail_url_ss'')"
    using thumbnail_resolution[OF sample_base_thumb] by (rule conjunct1)
  from this t1 have "resolve_thumbnail sample_externals ?b1 sample_config =
              Inr (dict_get ?b1 ''thumbnail_url_ss'') \<and>
            (\<forall>ext'. FIELD_MAPPING ext' = FIELD_MAPPING sample_externals \<longrightarrow>
               map_record ext' (sample_row(''Thumbnail URL'' \<mapsto> PStr ''https://iiif.example/t.jpg''))
                 sample_config =
               map_record sample_externals
                 (sample_row(''Thumbnail URL'' \<mapsto> PStr ''https://iiif.example/t.jpg'')) sample_config) \<and>
            (\<forall>record. map_record sample_externals
                 (sample_row(''Thumbnail URL'' \<mapsto> PStr ''https://iiif.example/t.jpg'')) sample_config =
                 Inr record \<longrightarrow>
               dict_get record ''thumbnail_url_ss'' = dict_get ?b1 ''thumbnail_url_ss'')"
    by (rule mp)
  then have "resolve_thumbnail sample_externals ?b1 sample_config =
              Inr (dict_get ?b1 ''thumbnail_url_ss'')"
    by (rule conjunct1)
  then have r1: "resolve_thumbnail sample_externals ?b1 sample_config =
      Inr (PList [PStr ''https://iiif.example/t.jpg''])"
    unfolding g1 .
  have g0: "dict_get ?b0 ''thumbnail_url_ss'' = PList []"
    by (simp add: dict_get_def)
  then have t0: "\<not> truthy (dict_get ?b0 ''thumbnail_url_ss'')" by simp
  have c0: "thumbnail_from_child sample_externals ?b0 sample_config = Inr PNone"
    by (simp add: thumbnail_from_child_def sample_config_def)
  let ?r0 = "[(''ark_ssi'', PStr ''ark:/21198/z1''),
      (''thumbnail_url_ss'', PStr ''https://iiif.example/img1/full/!200,200/0/default.jpg''),
      (''iiif_manifest_url_ssi'', PStr ''https://iiif.example/manifest''),
      (''genre_tesim'', PList [PStr ''Photograph'', PStr ''2'']),
      (''resource_type_tesim'', PList [PStr ''1'']),
      (''subject_tesim'', PList [PStr ''a'', PStr ''b'']),
      (''year_tesim'', PList [PStr ''1923/1925'']),
      (''title_tesim'', PNone),
      (''dlcs_collection_name_tesim'', PList [PStr ''Sinai Palimpsests'']),
      (''genre_sim'', PList [PStr ''Photograph'', PStr ''2'']),
      (''human_readable_language_sim'', PNone),
      (''human_readable_resource_type_sim'', PList [PStr ''1'']),
      (''location_sim'', PNone),
      (''member_of_collections_ssim'', PList [PStr ''Sinai Palimpsests'']),
      (''named_subject_sim'', PNone),
      (''subject_sim'', PList [PStr ''a'', PStr ''b'']),
      (''year_isim'', PList [PStr ''1923/1925''])]"
  have gr: "dict_get ?r0 ''thumbnail_url_ss'' =
      PStr ''https://iiif.example/img1/full/!200,200/0/default.jpg''"
    by (simp add: dict_get_def)
  have "\<not> truthy (dict_get ?b0 ''thumbnail_url_ss'') \<longrightarrow>
     (\<forall>record. map_record sample_externals sample_row sample_config = Inr record \<longrightarrow>
        (\<exists>child. thumbnail_from_child sample_externals ?b0 sample_config = Inr child \<and>
           (truthy child \<longrightarrow> dict_get record ''thumbnail_url_ss'' = child) \<and>
           (\<not> truthy child \<longrightarrow>
              thumbnail_from_manifest sample_externals ?b0 =
                Inr (dict_get record ''thumbnail_url_ss''))))"
    using thumbnail_resolution[OF sample_base] by (rule conjunct2)
  from this t0 have "\<forall>record. map_record sample_externals sample_row sample_config = Inr record \<longrightarrow>
        (\<exists>child. thumbnail_from_child sample_externals ?b0 sample_config = Inr child \<and>
           (truthy child \<longrightarrow> dict_get record ''thumbnail_url_ss'' = child) \<and>
           (\<not> truthy child \<longrightarrow>
              thumbnail_from_manifest sample_externals ?b0 =
                Inr (dict_get record ''thumbnail_url_ss'')))"
    by (rule mp)
  then have "map_record sample_externals sample_row sample_config = Inr ?r0 \<longrightarrow>
        (\<exists>child. thumbnail_from_child sample_externals ?b0 sample_config = Inr child \<and>
           (truthy child \<longrightarrow> dict_get ?r0 ''thumbnail_url_ss'' = child) \<and>
           (\<not> truthy child \<longrightarrow>
              thumbnail_from_manifest sample_externals ?b0 =
                Inr (dict_get ?r0 ''thumbnail_url_ss'')))"
    by (rule spec)
  from this sample_record
  have "\<exists>child. thumbnail_from_child sample_externals ?b0 sample_config = Inr child \<and>
           (truthy child \<longrightarrow> dict_get ?r0 ''thumbnail_url_ss'' = child) \<and>
           (\<not> truthy child \<longrightarrow>
              thumbnail_from_manifest sample_externals ?b0 =
                Inr (dict_get ?r0 ''thumbnail_url_ss''))"
    by (rule mp)
  then obtain child where ch: "thumbnail_from_child sample_externals ?b0 sample_config = Inr child"
    and m: "\<not> truthy child \<longrightarrow>
              thumbnail_from_manifest sample_externals ?b0 =
                Inr (dict_get ?r0 ''thumbnail_url_ss'')"
    by (elim exE conjE)
  from ch c0 have "child = PNone" by (simp only: sum.inject)
  then have "\<not> truthy child" by simp
  with m have "thumbnail_from_manifest sample_externals ?b0 =
                Inr (dict_get ?r0 ''thumbnail_url_ss'')"
    by (rule mp)
  then have m0: "thumbnail_from_manifest sample_externals ?b0 =
      Inr (PStr ''https://iiif.example/img1/full/!200,200/0/default.jpg'')"
    unfolding gr .
  have first: "\<exists>base. base_pass sample_externals
              (sample_row(''Thumbnail URL'' \<mapsto> PStr ''https://iiif.example/t.jpg''))
              sample_config [] (map fst (FIELD_MAPPING sample_externals)) = Inr base \<and>
           truthy (dict_get base ''thumbnail_url_ss'') \<and>
           resolve_thumbnail sample_externals base sample_config =
             Inr (PList [PStr ''https://iiif.example/t.jpg''])"
    using sample_base_thumb t1 r1 by blast
  have second: "\<exists>base rcd. base_pass sample_externals sample_row sample_config []
                  (map fst (FIELD_MAPPING sample_externals)) = Inr base \<and>
               map_record sample_externals sample_row sample_config = Inr rcd \<and>
               \<not> truthy (dict_get base ''thumbnail_url_ss'') \<and>
               thumbnail_from_child sample_externals base sample_config = Inr PNone \<and>
               thumbnail_from_manifest sample_externals base =
                 Inr (PStr ''https://iiif.example/img1/full/!200,200/0/default.jpg'') \<and>
               dict_get rcd ''thumbnail_url_ss'' =
                 PStr ''https://iiif.example/img1/full/!200,200/0/default.jpg''"
    apply (rule exI[of _ ?b0])
    apply (rule exI)
    apply (intro conjI)
         apply (rule sample_base)
        apply (rule sample_record)
       apply (rule t0)
      apply (rule c0)
     apply (rule m0)
    apply (rule gr)
    done
  from first second show ?thesis by (rule conjI)
qed

text \<open>
  Claim C9 as stated takes the first result that is not null, so that a base-pass value
  other than null suppresses the fallbacks. On the sample row the base pass gives the empty
  list, which is not null, and the thumbnail is the one of the manifest.
\<close>

theorem thumbnail_first_non_null_counterexample:
  "field_of (base_pass sample_externals sample_row sample_config []
               (map fst (FIELD_MAPPING sample_externals))) ''thumbnail_url_ss'' = Inr (PList []) \<and>
   PList [] \<noteq> PNone \<and>
   field_of (map_record sample_externals sample_row sample_config) ''thumbnail_url_ss'' =
     Inr (PStr ''https://iiif.example/img1/full/!200,200/0/default.jpg'')"
  by code_simp

subsection \<open>The fields of the schema\<close>

text \<open>
  When does \<^verbatim>\<open>map_record\<close> return? Every rule of the schema must be one that can be carried
  out on the row; the sibling lookup must not raise (there is no data frame, or the schema
  has the field \<^verbatim>\<open>ark_ssi\<close> and neither the selection nor \<^verbatim>\<open>mapper.thumbnail_url\<close> raises);
  and a row with a parent needs the collection names in the configuration.
\<close>

lemma map_field_value_returns:
  assumes "map_of (FIELD_MAPPING ext) field_name = Some rule" and "valid_rule row rule"
  shows "\<exists>v. map_field_value ext row field_name config = Inr v"
proof (cases rule)
  case RNone
  with assms show ?thesis by (simp add: map_field_value_def)
next
  case (RCallable f)
  with assms show ?thesis
    by (simp add: map_field_value_def valid_rule_def split: sum.splits)
next
  case (RStr c)
  with assms(2) have "\<forall>c'\<in>set [c]. string_cell row c'" by (simp add: valid_rule_def)
  from extend_output_strings[OF this, of "[]"] RStr assms(1) show ?thesis
    by (simp add: map_field_value_def map_columns_def)
next
  case (RCollection cs)
  with assms(2) have "\<forall>c'\<in>set cs. string_cell row c'"
    by (simp add: valid_rule_def list_all_iff)
  from extend_output_strings[OF this, of "[]"] RCollection assms(1) show ?thesis
    by (simp add: map_field_value_def map_columns_def)
next
  case ROther
  with assms(2) show ?thesis by (simp add: valid_rule_def)
qed

lemma base_pass_returns:
  assumes "\<forall>f\<in>set names. \<exists>rule. map_of (FIELD_MAPPING ext) f = Some rule \<and> valid_rule row rule"
  shows "\<exists>base. base_pass ext row config rcd names = Inr base"
  using assms
proof (induction names arbitrary: rcd)
  case Nil
  show ?case by simp
next
  case (Cons f names)
  from Cons.prems obtain rule where "map_of (FIELD_MAPPING ext) f = Some rule" "valid_rule row rule"
    by auto
  from map_field_value_returns[OF this] obtain v where
    v: "map_field_value ext row f config = Inr v" by blast
  from Cons.prems have "\<forall>f\<in>set names. \<exists>rule. map_of (FIELD_MAPPING ext) f = Some rule \<and> valid_rule row rule"
    by simp
  from Cons.IH[OF this, of "dict_set rcd f v"] v show ?case by simp
qed

lemma schema_rules:
  assumes "\<forall>(f, rule)\<in>set schema. valid_rule row rule"
  shows "\<forall>f\<in>set (map fst schema). \<exists>rule. map_of schema f = Some rule \<and> valid_rule row rule"
proof
  fix f assume "f \<in> set (map fst schema)"
  then have "map_of schema f \<noteq> None" by (simp add: map_of_eq_None_iff)
  then obtain rule where r: "map_of schema f = Some rule" by blast
  from map_of_SomeD[OF r] assms have "valid_rule row rule" by blast
  with r show "\<exists>rule. map_of schema f = Some rule \<and> valid_rule row rule" by blast
qed

lemma first_thumb_returns:
  assumes "\<forall>r. \<exists>v. thumbnail_url ext r = Inr v"
  shows "\<exists>v. first_thumb ext rows = Inr v"
proof (induction rows)
  case Nil
  show ?case by simp
next
  case (Cons r rows)
  from assms obtain v where "thumbnail_url ext r = Inr v" by blast
  with Cons.IH show ?case by simp
qed

lemma thumbnail_from_child_returns:
  assumes "data_frame config = None \<or>
           (''ark_ssi'' \<in> fst ` set rcd \<and>
            (\<forall>data column v. \<exists>selected. select_eq ext data column v = Inr selected) \<and>
            (\<forall>r. \<exists>v. thumbnail_url ext r = Inr v))"
  shows "\<exists>v. thumbnail_from_child ext rcd config = Inr v"
proof (cases "data_frame config")
  case None
  then show ?thesis by (simp add: thumbnail_from_child_def)
next
  case (Some data)
  with assms have ark: "''ark_ssi'' \<in> fst ` set rcd"
    and sel: "\<forall>data column v. \<exists>selected. select_eq ext data column v = Inr selected"
    and thumb: "\<forall>r. \<exists>v. thumbnail_url ext r = Inr v" by simp_all
  from ark obtain a where a: "map_of rcd ''ark_ssi'' = Some a"
    using map_of_eq_None_iff[of rcd "''ark_ssi''"] by (cases "map_of rcd ''ark_ssi''") auto
  from sel obtain children where c: "select_eq ext data ''Parent ARK'' a = Inr children" by blast
  from sel obtain representative where
    r: "select_eq ext children ''Title'' (PStr ''f. 001r'') = Inr representative" by blast
  from first_thumb_returns[OF thumb] Some a c r show ?thesis
    by (simp add: thumbnail_from_child_def)
qed

lemma resolve_thumbnail_returns:
  assumes "\<exists>v. thumbnail_from_child ext rcd config = Inr v"
  shows "\<exists>v. resolve_thumbnail ext rcd config = Inr v"
proof -
  from assms obtain c where c: "thumbnail_from_child ext rcd config = Inr c" by blast
  from thumbnail_from_manifest_Inr[of ext rcd] obtain m where
    m: "thumbnail_from_manifest ext rcd = Inr m" by blast
  from c m show ?thesis by (simp add: resolve_thumbnail_def Let_def)
qed

lemma backfill_returns:
  assumes "row ''Parent ARK'' = None \<or>
           (collection_names config \<noteq> None \<and> string_cell row ''Parent ARK'')"
  shows "\<exists>filled. backfill_collection_name row config rcd = Inr filled"
  using assms
  by (auto simp: backfill_collection_name_def string_cell_def split: option.splits pyval.splits)

text \<open>
  Claim C8. Every record that \<^verbatim>\<open>map_record\<close> returns has every field name of the schema
  as a key, whatever the value mapped to it; and for a valid row, schema and configuration
  \<^verbatim>\<open>map_record\<close> does return a record.
\<close>

theorem map_record_schema_fields:
  "(\<forall>record. map_record ext row config = Inr record \<longrightarrow>
      fst ` set (FIELD_MAPPING ext) \<subseteq> fst ` set record) \<and>
   ((\<forall>(f, rule)\<in>set (FIELD_MAPPING ext). valid_rule row rule) \<and>
    (data_frame config = None \<or>
       (''ark_ssi'' \<in> fst ` set (FIELD_MAPPING ext) \<and>
        (\<forall>data column v. \<exists>selected. select_eq ext data column v = Inr selected) \<and>
        (\<forall>r. \<exists>v. thumbnail_url ext r = Inr v))) \<and>
    (row ''Parent ARK'' = None \<or>
       (collection_names config \<noteq> None \<and> string_cell row ''Parent ARK'')) \<longrightarrow>
    (\<exists>record. map_record ext row config = Inr record))"
proof (intro conjI allI impI)
  fix rcd assume "map_record ext row config = Inr rcd"
  then show "fst ` set (FIELD_MAPPING ext) \<subseteq> fst ` set rcd"
    using map_record_keys by blast
next
  assume v: "(\<forall>(f, rule)\<in>set (FIELD_MAPPING ext). valid_rule row rule) \<and>
    (data_frame config = None \<or>
       (''ark_ssi'' \<in> fst ` set (FIELD_MAPPING ext) \<and>
        (\<forall>data column v. \<exists>selected. select_eq ext data column v = Inr selected) \<and>
        (\<forall>r. \<exists>v. thumbnail_url ext r = Inr v))) \<and>
    (row ''Parent ARK'' = None \<or>
       (collection_names config \<noteq> None \<and> string_cell row ''Parent ARK''))"
  from v have rules: "\<forall>(f, rule)\<in>set (FIELD_MAPPING ext). valid_rule row rule" by (rule conjunct1)
  from base_pass_returns[OF schema_rules[OF rules], of config "[]"] obtain base where
    b: "base_pass ext row config [] (map fst (FIELD_MAPPING ext)) = Inr base" by blast
  from base_pass_keys[OF b] have keys: "fst ` set base = fst ` set (FIELD_MAPPING ext)" by simp
  from v keys have "data_frame config = None \<or>
           (''ark_ssi'' \<in> fst ` set base \<and>
            (\<forall>data column v. \<exists>selected. select_eq ext data column v = Inr selected) \<and>
            (\<forall>r. \<exists>v. thumbnail_url ext r = Inr v))" by blast
  from resolve_thumbnail_returns[OF thumbnail_from_child_returns[OF this]] obtain thumb where
    t: "resolve_thumbnail ext base config = Inr thumb" by blast
  from v have "row ''Parent ARK'' = None \<or>
       (collection_names config \<noteq> None \<and> string_cell row ''Parent ARK'')" by blast
  from backfill_returns[OF this, of "dict_set base ''thumbnail_url_ss'' thumb"] obtain filled where
    f: "backfill_collection_name row config (dict_set base ''thumbnail_url_ss'' thumb) = Inr filled"
    by blast
  from b t f show "\<exists>record. map_record ext row config = Inr record"
    by (simp add: map_record_def)
qed

theorem map_record_schema_fields_witness:
  "list_all (\<lambda>(f, rule). valid_rule sample_row rule) (FIELD_MAPPING sample_externals) \<and>
   data_frame sample_config = None \<and>
   collection_names sample_config \<noteq> None \<and>
   string_cell sample_row ''Parent ARK'' \<and>
   (\<exists>rcd. map_record sample_externals sample_row sample_config = Inr rcd \<and>
          fst ` set (FIELD_MAPPING sample_externals) \<subseteq> fst ` set rcd \<and>
          map_of rcd ''title_tesim'' = Some PNone)"
proof -
  have a: "\<forall>(f, rule)\<in>set (FIELD_MAPPING sample_externals). valid_rule sample_row rule"
    by (simp add: sample_externals_def sample_mapping_def valid_rule_def string_cell_def
        sample_row_def)
  have b: "data_frame sample_config = None" by (simp add: sample_config_def)
  have c: "collection_names sample_config \<noteq> None" by (simp add: sample_config_def)
  have d: "string_cell sample_row ''Parent ARK''"
    by (simp add: string_cell_def sample_row_def)
  have hyp: "(\<forall>(f, rule)\<in>set (FIELD_MAPPING sample_externals). valid_rule sample_row rule) \<and>
    (data_frame sample_config = None \<or>
       (''ark_ssi'' \<in> fst ` set (FIELD_MAPPING sample_externals) \<and>
        (\<forall>data column v. \<exists>selected. select_eq sample_externals data column v = Inr selected) \<and>
        (\<forall>r. \<exists>v. thumbnail_url sample_externals r = Inr v))) \<and>
    (sample_row ''Parent ARK'' = None \<or>
       (collection_names sample_config \<noteq> None \<and> string_cell sample_row ''Parent ARK''))"
    using a b c d by blast
  note inst = map_record_schema_fields[of sample_externals sample_row sample_config]
  from inst[THEN conjunct2] hyp
  obtain rcd where r: "map_record sample_externals sample_row sample_config = Inr rcd"
    by blast
  from inst[THEN conjunct1] r
  have k: "fst ` set (FIELD_MAPPING sample_externals) \<subseteq> fst ` set rcd" by blast
  from r sample_record have "map_of rcd ''title_tesim'' = Some PNone" by auto
  moreover from a
  have "list_all (\<lambda>(f, rule). valid_rule sample_row rule) (FIELD_MAPPING sample_externals)"
    by (simp add: list_all_iff)
  ultimately show ?thesis using b c d r k by blast
qed

end
